theory Spec2Isabelle
  imports Complex_Main "HOL-Library.Word"
begin

unbundle bit_operations_syntax

section \<open>Values of the JavaScript platform\<close>

text \<open>
  The audio pipeline of \<^verbatim>\<open>src/App.tsx\<close> works on typed arrays and on a \<^verbatim>\<open>DataView\<close>.
  A byte is an \<open>8 word\<close>, an element of an \<^verbatim>\<open>Int16Array\<close> a \<open>16 word\<close> read with
  \<open>sint\<close>, and the contents of an \<^verbatim>\<open>ArrayBuffer\<close> a list of bytes. A JavaScript
  \<^verbatim>\<open>number\<close> that holds an integer is an \<open>int\<close>; the conversions of the platform
  (\<^verbatim>\<open>ToUint8\<close>, \<^verbatim>\<open>ToUint16\<close>, \<^verbatim>\<open>ToInt16\<close>, \<^verbatim>\<open>ToUint32\<close>) reduce it modulo the
  width, which is what \<open>word_of_int\<close> does.

  Everything that can be thrown is a value of \<open>js_error\<close>; a function that can throw
  returns \<open>js_error + 'a\<close>, with \<open>Inl\<close> for the exception.
\<close>

type_synonym byte = "8 word"
type_synonym int16 = "16 word"

datatype js_error =
    Error string
  | RangeError string
  | TypeError string
  | DOMException string string
  | NonError

text \<open>\<^verbatim>\<open>e instanceof Error\<close>: every exception class of the platform derives from
  \<^verbatim>\<open>Error\<close> (\<^verbatim>\<open>DOMException\<close> included); \<open>NonError\<close> stands for a thrown value that
  does not.\<close>

fun instanceof_Error :: "js_error \<Rightarrow> bool" where
  "instanceof_Error NonError = False"
| "instanceof_Error _ = True"

text \<open>\<^verbatim>\<open>e.message\<close>; the first argument of a \<open>DOMException\<close> is its name.\<close>

fun message :: "js_error \<Rightarrow> string" where
  "message (Error m) = m"
| "message (RangeError m) = m"
| "message (TypeError m) = m"
| "message (DOMException n m) = m"
| "message NonError = []"

definition andThen :: "js_error + 'a \<Rightarrow> ('a \<Rightarrow> js_error + 'b) \<Rightarrow> js_error + 'b" where
  "andThen r f = (case r of Inl e \<Rightarrow> Inl e | Inr v \<Rightarrow> f v)"

subsection \<open>DataView\<close>

text \<open>
  The bytes of a 16-bit and of a 32-bit value in the order the \<^verbatim>\<open>littleEndian\<close> flag of
  the setter asks for.
\<close>

definition bytes16 :: "16 word \<Rightarrow> bool \<Rightarrow> byte list" where
  "bytes16 w littleEndian =
     (let b0 = (ucast w :: byte); b1 = (ucast (drop_bit 8 w) :: byte)
      in if littleEndian then [b0, b1] else [b1, b0])"

definition bytes32 :: "32 word \<Rightarrow> bool \<Rightarrow> byte list" where
  "bytes32 w littleEndian =
     (let b0 = (ucast w :: byte); b1 = (ucast (drop_bit 8 w) :: byte);
          b2 = (ucast (drop_bit 16 w) :: byte); b3 = (ucast (drop_bit 24 w) :: byte)
      in if littleEndian then [b0, b1, b2, b3] else [b3, b2, b1, b0])"

text \<open>
  \<^verbatim>\<open>SetViewValue\<close> of ECMAScript, which every setter of a \<^verbatim>\<open>DataView\<close> is defined by: a
  write that does not lie inside the view throws a \<^verbatim>\<open>RangeError\<close>, any other replaces
  the bytes at the offset. The view covers its whole buffer here, as in the source.
\<close>

definition SetViewValue :: "byte list \<Rightarrow> nat \<Rightarrow> byte list \<Rightarrow> js_error + byte list" where
  "SetViewValue view byteOffset bs =
     (if byteOffset + length bs \<le> length view
      then Inr (take byteOffset view @ bs @ drop (byteOffset + length bs) view)
      else Inl (RangeError ''Offset is outside the bounds of the DataView''))"

definition setUint8 :: "byte list \<Rightarrow> nat \<Rightarrow> int \<Rightarrow> js_error + byte list" where
  "setUint8 view byteOffset v = SetViewValue view byteOffset [word_of_int v]"

definition setUint16 :: "byte list \<Rightarrow> nat \<Rightarrow> int \<Rightarrow> bool \<Rightarrow> js_error + byte list" where
  "setUint16 view byteOffset v littleEndian =
     SetViewValue view byteOffset (bytes16 (word_of_int v) littleEndian)"

definition setInt16 :: "byte list \<Rightarrow> nat \<Rightarrow> int \<Rightarrow> bool \<Rightarrow> js_error + byte list" where
  "setInt16 view byteOffset v littleEndian =
     SetViewValue view byteOffset (bytes16 (word_of_int v) littleEndian)"

definition setUint32 :: "byte list \<Rightarrow> nat \<Rightarrow> int \<Rightarrow> bool \<Rightarrow> js_error + byte list" where
  "setUint32 view byteOffset v littleEndian =
     SetViewValue view byteOffset (bytes32 (word_of_int v) littleEndian)"

text \<open>\<^verbatim>\<open>string.charCodeAt(i)\<close> of a string of 8-bit characters.\<close>

definition charCode :: "char \<Rightarrow> int" where
  "charCode c = int (of_char c)"

section \<open>The WAV encoder\<close>

text \<open>
  \<^verbatim>\<open>writeString(view, offset, string)\<close>, lines 38 to 42: one \<^verbatim>\<open>setUint8\<close> for each
  character, at \<^verbatim>\<open>offset + i\<close>. The recursion walks the string from its first character,
  the offset moving with it.
\<close>

fun writeString :: "byte list \<Rightarrow> nat \<Rightarrow> string \<Rightarrow> js_error + byte list" where
  "writeString view offset [] = Inr view"
| "writeString view offset (c # cs) =
     andThen (setUint8 view offset (charCode c)) (\<lambda>view'. writeString view' (offset + 1) cs)"

text \<open>
  The loop of lines 67 to 69, \<^verbatim>\<open>for (let i = 0; i < pcmData.length; i++)\<close>, from index
  \<open>i\<close> on: sample \<open>i\<close> goes to byte offset \<open>44 + i * 2\<close>, little-endian.
\<close>

function writeSamples :: "byte list \<Rightarrow> int16 list \<Rightarrow> nat \<Rightarrow> js_error + byte list" where
  "writeSamples view pcmData i =
     (if i < length pcmData
      then andThen (setInt16 view (44 + i * 2) (sint (pcmData ! i)) True)
             (\<lambda>view'. writeSamples view' pcmData (i + 1))
      else Inr view)"
  by pat_completeness auto
termination
  by (relation "measure (\<lambda>(view, pcmData, i). length pcmData - i)") auto

declare writeSamples.simps [simp del]

record Blob =
  blob_parts :: "byte list"
  blob_type :: string

text \<open>
  \<^verbatim>\<open>createWavBlob(pcmData, sampleRate)\<close>, lines 44 to 72. \<^verbatim>\<open>new ArrayBuffer(n)\<close> is \<open>n\<close>
  zero bytes. The channel count is the constant of line 45, not a parameter.
\<close>

definition createWavBlob :: "int16 list \<Rightarrow> int \<Rightarrow> js_error + Blob" where
  "createWavBlob pcmData sampleRate =
     (let numChannels = (1 :: int);
          bitsPerSample = (16 :: int);
          dataSize = length pcmData * 2;
          blockAlign = (numChannels * bitsPerSample) div 8;
          byteRate = sampleRate * blockAlign;
          buffer = replicate (44 + dataSize) (0 :: byte)
      in
      andThen (writeString buffer 0 ''RIFF'') (\<lambda>v1.
      andThen (setUint32 v1 4 (36 + int dataSize) True) (\<lambda>v2.
      andThen (writeString v2 8 ''WAVE'') (\<lambda>v3.
      andThen (writeString v3 12 ''fmt '') (\<lambda>v4.
      andThen (setUint32 v4 16 16 True) (\<lambda>v5.
      andThen (setUint16 v5 20 1 True) (\<lambda>v6.
      andThen (setUint16 v6 22 numChannels True) (\<lambda>v7.
      andThen (setUint32 v7 24 sampleRate True) (\<lambda>v8.
      andThen (setUint32 v8 28 byteRate True) (\<lambda>v9.
      andThen (setUint16 v9 32 blockAlign True) (\<lambda>v10.
      andThen (setUint16 v10 34 bitsPerSample True) (\<lambda>v11.
      andThen (writeString v11 36 ''data'') (\<lambda>v12.
      andThen (setUint32 v12 40 (int dataSize) True) (\<lambda>v13.
      andThen (writeSamples v13 pcmData 0) (\<lambda>view.
      Inr \<lparr>blob_parts = view, blob_type = ''audio/wav''\<rparr>)))))))))))))))"


section \<open>Decoding the service's answer\<close>

subsection \<open>atob\<close>

text \<open>
  \<^verbatim>\<open>atob\<close> is the platform's forgiving-base64 decode (WHATWG Infra): ASCII whitespace is
  removed; if the length is then a multiple of 4, one or two final \<^verbatim>\<open>=\<close> are removed; a
  length of 1 modulo 4 or a character outside the alphabet is a failure, thrown as the
  \<^verbatim>\<open>DOMException\<close> \<^verbatim>\<open>InvalidCharacterError\<close>; every character is 6 bits, most significant
  first, and 12 or 18 left-over bits lose their last 4 or 2. The result is a binary string:
  one character of code 0 to 255 for each byte.
\<close>

definition ascii_whitespace :: "char \<Rightarrow> bool" where
  "ascii_whitespace c = (of_char c \<in> {9, 10, 12, 13, 32 :: nat})"

definition base64_alphabet :: string where
  "base64_alphabet = ''ABCDEFGHIJKLMNOPQRSTUVWXYZabcdefghijklmnopqrstuvwxyz0123456789+/''"

fun index_of :: "char \<Rightarrow> string \<Rightarrow> nat option" where
  "index_of c [] = None"
| "index_of c (x # xs) = (if c = x then Some 0 else map_option Suc (index_of c xs))"

fun sextets :: "string \<Rightarrow> nat list option" where
  "sextets [] = Some []"
| "sextets (c # cs) =
     (case index_of c base64_alphabet of
        None \<Rightarrow> None
      | Some n \<Rightarrow> map_option ((#) n) (sextets cs))"

fun remove_padding :: "string \<Rightarrow> string" where
  "remove_padding d =
     (if length d mod 4 = 0
      then (case rev d of
              a # b # r \<Rightarrow> if a = CHR ''='' \<and> b = CHR ''='' then rev r
                           else if a = CHR ''='' then rev (b # r) else d
            | _ \<Rightarrow> d)
      else d)"

fun sextet_bytes :: "nat list \<Rightarrow> nat list" where
  "sextet_bytes (a # b # c # d # rest) =
     (a * 4 + b div 16) # ((b mod 16) * 16 + c div 4) # ((c mod 4) * 64 + d) # sextet_bytes rest"
| "sextet_bytes [a, b, c] = [a * 4 + b div 16, (b mod 16) * 16 + c div 4]"
| "sextet_bytes [a, b] = [a * 4 + b div 16]"
| "sextet_bytes _ = []"

definition atob :: "string \<Rightarrow> js_error + string" where
  "atob base64 =
     (let d = remove_padding (filter (\<lambda>c. \<not> ascii_whitespace c) base64)
      in if length d mod 4 = 1
         then Inl (DOMException ''InvalidCharacterError''
                     ''The string to be decoded is not correctly encoded.'')
         else (case sextets d of
                 None \<Rightarrow> Inl (DOMException ''InvalidCharacterError''
                                ''The string to be decoded is not correctly encoded.'')
               | Some ns \<Rightarrow> Inr (map char_of (sextet_bytes ns))))"

text \<open>
  \<^verbatim>\<open>decode(base64)\<close>, lines 8 to 16: a \<^verbatim>\<open>Uint8Array\<close> of the length of the binary string,
  element \<open>i\<close> the character code at \<open>i\<close>. The result stands for the array and for its
  \<^verbatim>\<open>buffer\<close>, which it covers whole.
\<close>

definition decode :: "string \<Rightarrow> js_error + byte list" where
  "decode base64 =
     andThen (atob base64) (\<lambda>binaryString.
       Inr (map (\<lambda>c. word_of_int (charCode c)) binaryString))"

subsection \<open>The 16-bit view\<close>

text \<open>
  \<^verbatim>\<open>new Int16Array(buffer)\<close> throws a \<^verbatim>\<open>RangeError\<close> when the byte length of the buffer is
  odd. A typed array reads its buffer in the byte order of the machine, which is
  little-endian on the machines browsers run on: element \<open>i\<close> has its low byte at
  \<open>2 * i\<close>.
\<close>

fun int16s :: "byte list \<Rightarrow> int16 list" where
  "int16s (b0 # b1 # bs) = (ucast b0 OR push_bit 8 (ucast b1)) # int16s bs"
| "int16s _ = []"

definition new_Int16Array :: "byte list \<Rightarrow> js_error + int16 list" where
  "new_Int16Array buffer =
     (if length buffer mod 2 \<noteq> 0
      then Inl (RangeError ''byte length of Int16Array should be a multiple of 2'')
      else Inr (int16s buffer))"

section \<open>The playback buffer\<close>

text \<open>
  An element of a \<^verbatim>\<open>Float32Array\<close> is a number or \<^verbatim>\<open>NaN\<close>. The numbers that occur are a
  16-bit integer divided by \<open>2 ^ 15\<close>: each has at most 16 significant bits, so the
  division and the store into 32-bit floats are exact and a \<open>real\<close> holds the value.
\<close>

datatype f32 = Num real | NaN

record AudioBuffer =
  numberOfChannels :: nat
  frames :: nat
  buf_sampleRate :: int
  channels :: "f32 list list"

datatype AudioContextState = Suspended | Running

text \<open>
  An \<^verbatim>\<open>AudioContext\<close>. \<open>ctx_id\<close> tells one instance from another. The last three
  fields are the limits of the implementation: Web Audio asks for at least 32 channels
  and the rates 8000 to 96000 and leaves the rest open.
\<close>

record AudioContext =
  ctx_id :: nat
  ctx_sampleRate :: int
  ctx_state :: AudioContextState
  maxChannels :: nat
  minRate :: int
  maxRate :: int

definition NotSupportedError :: js_error where
  "NotSupportedError = DOMException ''NotSupportedError'' ''The operation is not supported.''"

definition IndexSizeError :: js_error where
  "IndexSizeError = DOMException ''IndexSizeError'' ''The index is not in the allowed range.''"

text \<open>
  \<^verbatim>\<open>ctx.createBuffer(numberOfChannels, length, sampleRate)\<close>. The first two parameters
  are \<^verbatim>\<open>unsigned long\<close>: Web IDL truncates a fraction and reduces modulo \<open>2 ^ 32\<close>. Web
  Audio throws \<^verbatim>\<open>NotSupportedError\<close> when an argument is zero or outside the range the
  implementation supports; otherwise the buffer is silent, every sample zero.
\<close>

definition createBuffer :: "AudioContext \<Rightarrow> nat \<Rightarrow> real \<Rightarrow> int \<Rightarrow> js_error + AudioBuffer" where
  "createBuffer ctx nChannels len sampleRate =
     (let n = nChannels mod 4294967296;
          l = nat \<lfloor>len\<rfloor> mod 4294967296
      in if n = 0 \<or> maxChannels ctx < n \<or> l = 0
            \<or> sampleRate < minRate ctx \<or> maxRate ctx < sampleRate
         then Inl NotSupportedError
         else Inr \<lparr>numberOfChannels = n, frames = l, buf_sampleRate = sampleRate,
                    channels = replicate n (replicate l (Num 0))\<rparr>)"

text \<open>\<^verbatim>\<open>buffer.getChannelData(channel)\<close> throws \<^verbatim>\<open>IndexSizeError\<close> for a channel the
  buffer does not have.\<close>

definition getChannelData :: "AudioBuffer \<Rightarrow> nat \<Rightarrow> js_error + f32 list" where
  "getChannelData buffer channel =
     (if channel < numberOfChannels buffer then Inr (channels buffer ! channel)
      else Inl IndexSizeError)"

text \<open>
  Reading a typed array past its end gives \<^verbatim>\<open>undefined\<close>, and \<^verbatim>\<open>undefined / 32768.0\<close> is
  \<^verbatim>\<open>NaN\<close>; writing one past its end does nothing.
\<close>

definition normalized :: "int16 list \<Rightarrow> nat \<Rightarrow> f32" where
  "normalized dataInt16 k =
     (if k < length dataInt16 then Num (real_of_int (sint (dataInt16 ! k)) / 32768) else NaN)"

definition store :: "f32 list \<Rightarrow> nat \<Rightarrow> f32 \<Rightarrow> f32 list" where
  "store channelData i v = (if i < length channelData then channelData[i := v] else channelData)"

text \<open>
  The inner loop of lines 30 to 32, from frame \<open>i\<close> on. \<open>frameCount\<close> is the quotient
  of line 25 and need not be whole.
\<close>

function fillChannel ::
  "int16 list \<Rightarrow> nat \<Rightarrow> real \<Rightarrow> nat \<Rightarrow> f32 list \<Rightarrow> nat \<Rightarrow> f32 list" where
  "fillChannel dataInt16 numChannels frameCount channel channelData i =
     (if real i < frameCount
      then fillChannel dataInt16 numChannels frameCount channel
             (store channelData i (normalized dataInt16 (i * numChannels + channel))) (i + 1)
      else channelData)"
  by pat_completeness auto
termination
  by (relation "measure (\<lambda>(d, n, frameCount, c, cd, i). nat \<lceil>frameCount\<rceil> - i)")
     (auto, linarith)

declare fillChannel.simps [simp del]

text \<open>
  The outer loop of lines 28 to 33, from \<open>channel\<close> on. The array \<^verbatim>\<open>getChannelData\<close>
  returns is the channel itself, so what the inner loop stores is stored in the buffer.
\<close>

function fillChannels ::
  "int16 list \<Rightarrow> nat \<Rightarrow> real \<Rightarrow> AudioBuffer \<Rightarrow> nat \<Rightarrow> js_error + AudioBuffer" where
  "fillChannels dataInt16 numChannels frameCount buffer channel =
     (if channel < numChannels
      then andThen (getChannelData buffer channel) (\<lambda>channelData.
             fillChannels dataInt16 numChannels frameCount
               (buffer\<lparr>channels := (channels buffer)
                   [channel := fillChannel dataInt16 numChannels frameCount channel channelData 0]\<rparr>)
               (channel + 1))
      else Inr buffer)"
  by pat_completeness auto
termination
  by (relation "measure (\<lambda>(d, numChannels, f, b, channel). numChannels - channel)") auto

declare fillChannels.simps [simp del]

text \<open>
  \<^verbatim>\<open>decodeAudioData(data, ctx, sampleRate, numChannels)\<close>, lines 18 to 35. The quotient
  of line 25 is a \<open>real\<close>: the double that JavaScript computes lies on the same side of
  every whole number as the exact quotient, the lengths of arrays being far below
  \<open>2 ^ 53\<close>, and the code only truncates it and compares it with whole numbers. With no
  channel the quotient is \<^verbatim>\<open>Infinity\<close> or \<^verbatim>\<open>NaN\<close> in JavaScript and 0 here; it is never
  looked at, because \<open>createBuffer\<close> refuses a buffer with no channel first.
\<close>

definition decodeAudioData ::
  "byte list \<Rightarrow> AudioContext \<Rightarrow> int \<Rightarrow> nat \<Rightarrow> js_error + AudioBuffer" where
  "decodeAudioData data ctx sampleRate numChannels =
     andThen (new_Int16Array data) (\<lambda>dataInt16.
       let frameCount = real (length dataInt16) / real numChannels
       in andThen (createBuffer ctx numChannels frameCount sampleRate) (\<lambda>buffer.
            fillChannels dataInt16 numChannels frameCount buffer 0))"


section \<open>The speech service\<close>

text \<open>
  \<^verbatim>\<open>generateSpeech(text, voice)\<close> of the service module, lines 39 to 100. The request it
  builds from the text and the voice goes to the remote model; what comes back is the
  parameter here: the call is rejected with an exception, or it answers, and the optional
  chain of line 89 finds a string or \<^verbatim>\<open>undefined\<close>. The \<^verbatim>\<open>catch\<close> of lines 96 to 99 logs
  what was thrown and throws a new \<^verbatim>\<open>Error\<close> with a fixed text.
\<close>

datatype api_outcome = Rejected js_error | Answered "string option"

definition generateSpeech :: "api_outcome \<Rightarrow> js_error + string" where
  "generateSpeech outcome =
     (case (case outcome of
              Rejected e \<Rightarrow> Inl e
            | Answered None \<Rightarrow> Inl (Error ''Could not generate audio data.'')
            | Answered (Some base64Audio) \<Rightarrow>
                if base64Audio = [] then Inl (Error ''Could not generate audio data.'')
                else Inr base64Audio)
      of Inl e \<Rightarrow> Inl (Error ''Failed to generate speech.'')
       | Inr base64Audio \<Rightarrow> Inr base64Audio)"

section \<open>The application\<close>

text \<open>
  The state of the component \<^verbatim>\<open>App\<close> that the audio handlers read or write, lines 77 to
  84 (\<open>text_in\<close> is the state \<^verbatim>\<open>text\<close>), and the resources of the page they act on: the
  blob URLs that are alive, the number of URLs and of audio contexts made so far, and the
  buffers whose playback was started. A blob URL is the number it was made as.
\<close>

type_synonym url = nat

record App =
  text_in :: string
  isLoading :: bool
  error :: "string option"
  audioUrl :: "url option"
  audioBuffer :: "AudioBuffer option"
  audioContextRef :: "AudioContext option"
  objectURLs :: "url \<rightharpoonup> Blob"
  urlsCreated :: nat
  contextsCreated :: nat
  started :: "AudioBuffer list"

definition initial :: App where
  "initial = \<lparr>text_in = [], isLoading = False, error = None, audioUrl = None,
     audioBuffer = None, audioContextRef = None, objectURLs = Map.empty,
     urlsCreated = 0, contextsCreated = 0, started = []\<rparr>"

text \<open>What the browser is: the limits of its audio implementation, and whether a new
  context may run at once or starts suspended.\<close>

record Platform =
  p_maxChannels :: nat
  p_minRate :: int
  p_maxRate :: int
  p_autoplay :: bool

text \<open>\<^verbatim>\<open>new AudioContext({ sampleRate })\<close> throws \<^verbatim>\<open>NotSupportedError\<close> for a rate the
  implementation does not support.\<close>

definition new_AudioContext :: "Platform \<Rightarrow> int \<Rightarrow> App \<Rightarrow> js_error + AudioContext \<times> App" where
  "new_AudioContext p sampleRate st =
     (if sampleRate < p_minRate p \<or> p_maxRate p < sampleRate then Inl NotSupportedError
      else Inr (\<lparr>ctx_id = contextsCreated st, ctx_sampleRate = sampleRate,
                 ctx_state = (if p_autoplay p then Running else Suspended),
                 maxChannels = p_maxChannels p, minRate = p_minRate p, maxRate = p_maxRate p\<rparr>,
                st\<lparr>contextsCreated := contextsCreated st + 1\<rparr>))"

definition createObjectURL :: "Blob \<Rightarrow> App \<Rightarrow> url \<times> App" where
  "createObjectURL blob st =
     (urlsCreated st,
      st\<lparr>objectURLs := (objectURLs st)(urlsCreated st \<mapsto> blob),
         urlsCreated := urlsCreated st + 1\<rparr>)"

definition revokeObjectURL :: "url \<Rightarrow> App \<Rightarrow> App" where
  "revokeObjectURL u st = st\<lparr>objectURLs := (objectURLs st)(u := None)\<rparr>"

text \<open>
  \<^verbatim>\<open>setAudioUrl\<close> with the effect of lines 100 to 106: when the state is committed with
  another value, the cleanup of the effect runs with the value it had and revokes it.
\<close>

definition setAudioUrl :: "url option \<Rightarrow> App \<Rightarrow> App" where
  "setAudioUrl v st =
     (let st' = st\<lparr>audioUrl := v\<rparr>
      in if audioUrl st = v then st'
         else (case audioUrl st of Some old \<Rightarrow> revokeObjectURL old st' | None \<Rightarrow> st'))"

text \<open>\<^verbatim>\<open>text.trim()\<close>, on 8-bit characters: the white space and line terminators of
  ECMAScript below 256.\<close>

definition js_whitespace :: "char \<Rightarrow> bool" where
  "js_whitespace c = (of_char c \<in> {9, 10, 11, 12, 13, 32, 160 :: nat})"

definition trim :: "string \<Rightarrow> string" where
  "trim s = rev (dropWhile js_whitespace (rev (dropWhile js_whitespace s)))"

text \<open>Lines 145 to 149: the context of the ref, made on the spot when the ref is empty.\<close>

definition ensureContext :: "Platform \<Rightarrow> App \<Rightarrow> js_error + AudioContext \<times> App" where
  "ensureContext p st =
     (case audioContextRef st of
        Some c \<Rightarrow> Inr (c, st)
      | None \<Rightarrow>
          (case new_AudioContext p 24000 st of
             Inl e \<Rightarrow> Inl e
           | Inr (c, st') \<Rightarrow> Inr (c, st'\<lparr>audioContextRef := Some c\<rparr>)))"

text \<open>
  The \<^verbatim>\<open>try\<close> block of lines 144 to 164: the state when the block ends, and what was
  thrown if it ended by an exception. A statement that throws leaves the state as the
  statements before it made it.
\<close>

definition tryBlock :: "Platform \<Rightarrow> api_outcome \<Rightarrow> App \<Rightarrow> App \<times> js_error option" where
  "tryBlock p outcome st =
     (case ensureContext p st of
        Inl e \<Rightarrow> (st, Some e)
      | Inr (audioContext, st1) \<Rightarrow>
     (case generateSpeech outcome of
        Inl e \<Rightarrow> (st1, Some e)
      | Inr base64Audio \<Rightarrow>
     (case decode base64Audio of
        Inl e \<Rightarrow> (st1, Some e)
      | Inr audioBytes \<Rightarrow>
     (case new_Int16Array audioBytes of
        Inl e \<Rightarrow> (st1, Some e)
      | Inr dataInt16 \<Rightarrow>
     (case createWavBlob dataInt16 24000 of
        Inl e \<Rightarrow> (st1, Some e)
      | Inr wavBlob \<Rightarrow>
     (case createObjectURL wavBlob st1 of (u, st2) \<Rightarrow>
     (case setAudioUrl (Some u) st2 of st3 \<Rightarrow>
     (case decodeAudioData audioBytes audioContext 24000 1 of
        Inl e \<Rightarrow> (st3, Some e)
      | Inr buffer \<Rightarrow> (st3\<lparr>audioBuffer := Some buffer\<rparr>, None)))))))))"

text \<open>
  Lines 136 to 142, with which a request starts: the loading flag is set, the error
  cleared, the blob URL of the render revoked if there is one, URL and buffer set to
  \<^verbatim>\<open>null\<close>.
\<close>

definition startRequest :: "App \<Rightarrow> App" where
  "startRequest st =
     (let st1 = st\<lparr>isLoading := True, error := None\<rparr>;
          st2 = (case audioUrl st of Some u \<Rightarrow> revokeObjectURL u st1 | None \<Rightarrow> st1);
          st3 = setAudioUrl None st2
      in st3\<lparr>audioBuffer := None\<rparr>)"

text \<open>
  \<^verbatim>\<open>handleGenerate\<close>, lines 130 to 171. \<open>t\<close> is the lookup of the translations, which
  are not part of the sources at hand. The \<^verbatim>\<open>catch\<close> of lines 165 to 167 turns what was
  thrown into the error text of the state, and the handler returns normally either way.
  The handler is one step here, the answer of the service being at hand when it starts.
  While it waits for the answer \<^verbatim>\<open>isLoading\<close> is set, and the text field, the generate
  button and the play button are disabled (lines 285, 312 and 326): neither this handler
  nor \<open>handlePlay\<close> runs in between, and no other handler of the component touches
  the audio state.
\<close>

definition handleGenerate :: "Platform \<Rightarrow> (string \<Rightarrow> string) \<Rightarrow> api_outcome \<Rightarrow> App \<Rightarrow> App" where
  "handleGenerate p t outcome st =
     (if trim (text_in st) = [] then st\<lparr>error := Some (t ''errorEnterText'')\<rparr>
      else
        (case tryBlock p outcome (startRequest st) of
           (st', None) \<Rightarrow> st'\<lparr>isLoading := False\<rparr>
         | (st', Some e) \<Rightarrow>
             st'\<lparr>error := Some (if instanceof_Error e
                                  then t ''errorPrefix'' @ '' '' @ message e
                                  else t ''errorUnknown''),
                 isLoading := False\<rparr>))"

text \<open>
  \<^verbatim>\<open>handlePlay\<close>, lines 173 to 185. \<^verbatim>\<open>resume()\<close> sets a suspended context running; the
  source node made for the buffer is started, which \<open>started\<close> records.
\<close>

definition handlePlay :: "App \<Rightarrow> App" where
  "handlePlay st =
     (case audioBuffer st of
        None \<Rightarrow> st
      | Some buffer \<Rightarrow>
          (case audioContextRef st of
             None \<Rightarrow> st
           | Some audioContext \<Rightarrow>
               let audioContext' = (if ctx_state audioContext = Suspended
                                    then audioContext\<lparr>ctx_state := Running\<rparr>
                                    else audioContext)
               in st\<lparr>audioContextRef := Some audioContext',
                     started := started st @ [buffer]\<rparr>))"

text \<open>
  What can happen to the component: the text changes (typed, or set by the story
  generator, which also clears the error), a speech is asked for and the service answers,
  the play button is pressed. \<open>run\<close> is the state after a sequence of these, from the
  state the component is mounted in.
\<close>

datatype event = SetText string | ClearError | Generate api_outcome | Play

fun step :: "Platform \<Rightarrow> (string \<Rightarrow> string) \<Rightarrow> App \<Rightarrow> event \<Rightarrow> App" where
  "step p t st (SetText s) = st\<lparr>text_in := s\<rparr>"
| "step p t st ClearError = st\<lparr>error := None\<rparr>"
| "step p t st (Generate outcome) = handleGenerate p t outcome st"
| "step p t st Play = handlePlay st"

definition run :: "Platform \<Rightarrow> (string \<Rightarrow> string) \<Rightarrow> event list \<Rightarrow> App" where
  "run p t evs = foldl (step p t) initial evs"

section \<open>The container of the specification\<close>

text \<open>
  The header table of section 4.3 of the specification, in its own words: the value of
  each field, its width, and the little-endian order written out with division and
  remainder. \<open>le_bytes k v\<close> is \<open>v\<close> in \<open>k\<close> bytes (a value that needs more loses its high
  part), \<open>le_value\<close> reads such bytes back.
\<close>

fun le_bytes :: "nat \<Rightarrow> int \<Rightarrow> byte list" where
  "le_bytes 0 v = []"
| "le_bytes (Suc k) v = word_of_int v # le_bytes k (v div 256)"

fun le_value :: "byte list \<Rightarrow> nat" where
  "le_value [] = 0"
| "le_value (b # bs) = unat b + 256 * le_value bs"

definition u16le :: "int \<Rightarrow> byte list" where
  "u16le v = le_bytes 2 v"

definition u32le :: "int \<Rightarrow> byte list" where
  "u32le v = le_bytes 4 v"

definition ascii :: "string \<Rightarrow> byte list" where
  "ascii s = map of_char s"

definition sample_bytes :: "int16 \<Rightarrow> byte list" where
  "sample_bytes w = u16le (sint w)"

definition spec_wav_header :: "int \<Rightarrow> int \<Rightarrow> int \<Rightarrow> byte list" where
  "spec_wav_header numChannels sampleRate dataSize =
     ascii ''RIFF'' @ u32le (36 + dataSize) @ ascii ''WAVE'' @
     ascii ''fmt '' @ u32le 16 @ u16le 1 @ u16le numChannels @ u32le sampleRate @
     u32le (sampleRate * numChannels * 2) @ u16le (numChannels * 2) @ u16le 16 @
     ascii ''data'' @ u32le dataSize"

text \<open>
  \<^verbatim>\<open>decodeWav\<close> of section 8 of the specification, which the repository has no code for: a
  reader of the canonical container. It checks the tags, takes the size of the data from
  the header and reads that many bytes from offset 44 as little-endian 16-bit samples.
\<close>

fun spec_samples :: "byte list \<Rightarrow> int16 list" where
  "spec_samples (b0 # b1 # bs) = word_of_nat (unat b0 + 256 * unat b1) # spec_samples bs"
| "spec_samples _ = []"

definition spec_decodeWav :: "byte list \<Rightarrow> int16 list option" where
  "spec_decodeWav file =
     (let dataSize = le_value (take 4 (drop 40 file))
      in if 44 \<le> length file \<and> take 4 file = ascii ''RIFF''
            \<and> take 4 (drop 8 file) = ascii ''WAVE''
            \<and> take 4 (drop 36 file) = ascii ''data''
            \<and> 44 + dataSize \<le> length file
         then Some (spec_samples (take dataSize (drop 44 file)))
         else None)"


text \<open>
  The chain of section 4.5 of the specification for one channel at 24000 Hz: decode
  (4.1), interpret (4.2), encode (4.3) and convert (4.4), each step on the result of the
  one before, the first failure ending it. The result is the container and the buffer.
\<close>

definition spec_chain :: "AudioContext \<Rightarrow> string \<Rightarrow> js_error + Blob \<times> AudioBuffer" where
  "spec_chain ctx base64Audio =
     andThen (decode base64Audio) (\<lambda>audioBytes.
     andThen (new_Int16Array audioBytes) (\<lambda>pcm.
     andThen (createWavBlob pcm 24000) (\<lambda>wav.
     andThen (decodeAudioData audioBytes ctx 24000 1) (\<lambda>buffer.
     Inr (wav, buffer)))))"

text \<open>The unsigned value of the \<open>k\<close> bytes at an offset of a file.\<close>

definition wav_field :: "nat \<Rightarrow> nat \<Rightarrow> byte list \<Rightarrow> nat" where
  "wav_field k offset file = le_value (take k (drop offset file))"

section \<open>Little-endian bytes\<close>

lemma andThen_Inr [simp]: "andThen (Inr v) f = f v"
  by (simp add: andThen_def)

lemma andThen_Inl [simp]: "andThen (Inl e) f = Inl e"
  by (simp add: andThen_def)

lemma length_le_bytes [simp]: "length (le_bytes k v) = k"
  by (induction k arbitrary: v) auto

lemma length_u16le [simp]: "length (u16le v) = 2"
  by (simp add: u16le_def)

lemma length_u32le [simp]: "length (u32le v) = 4"
  by (simp add: u32le_def)

lemma length_ascii [simp]: "length (ascii s) = length s"
  by (simp add: ascii_def)

lemma unat_byte_of_int: "unat (word_of_int x :: byte) = nat (x mod 256)"
  by (simp add: unat_eq_nat_uint uint_word_of_int take_bit_eq_mod)

lemma le_value_le_bytes: "le_value (le_bytes k v) = nat (v mod 256 ^ k)"
proof (induction k arbitrary: v)
  case 0
  show ?case by simp
next
  case (Suc k)
  have "le_value (le_bytes (Suc k) v) = nat (v mod 256) + 256 * nat (v div 256 mod 256 ^ k)"
    by (simp add: unat_byte_of_int Suc.IH)
  also have "\<dots> = nat (v mod 256 + 256 * (v div 256 mod 256 ^ k))"
    by (simp add: nat_add_distrib nat_mult_distrib)
  also have "v mod 256 + 256 * (v div 256 mod 256 ^ k) = v mod 256 ^ Suc k"
    by (simp add: zmod_zmult2_eq)
  finally show ?case .
qed

lemma le_value_u32le: "le_value (u32le v) = nat (v mod 4294967296)"
  by (simp add: u32le_def le_value_le_bytes)

lemma le_value_u16le: "le_value (u16le v) = nat (v mod 65536)"
  by (simp add: u16le_def le_value_le_bytes)

lemma u32le_bytes:
  "u32le v = [word_of_int v, word_of_int (v div 256), word_of_int (v div 65536),
              word_of_int (v div 16777216)]"
proof -
  have "v div 256 div 256 = v div 65536" "v div 256 div 256 div 256 = v div 16777216"
    by (simp_all flip: zdiv_zmult2_eq)
  then show ?thesis
    by (simp add: u32le_def numeral_eq_Suc)
qed

lemma u16le_bytes: "u16le v = [word_of_int v, word_of_int (v div 256)]"
  by (simp add: u16le_def numeral_eq_Suc)

lemma ucast_drop_bit_of_int:
  "(ucast (drop_bit n (word_of_int v :: 'a::len word)) :: byte) = word_of_int (v div 2 ^ n)"
  if "n + 8 \<le> LENGTH('a)"
proof (rule bit_word_eqI)
  fix k assume "k < LENGTH(8)"
  then show "bit (ucast (drop_bit n (word_of_int v :: 'a::len word)) :: byte) k
      = bit (word_of_int (v div 2 ^ n) :: byte) k"
    using that
    by (simp add: bit_ucast_iff bit_drop_bit_eq bit_word_of_int_iff flip: drop_bit_eq_div)
qed


lemma bytes32_le: "bytes32 (word_of_int v) True = u32le v"
  using ucast_drop_bit_of_int[of 8 v, where 'a = 32] ucast_drop_bit_of_int[of 16 v, where 'a = 32]
    ucast_drop_bit_of_int[of 24 v, where 'a = 32] ucast_drop_bit_of_int[of 0 v, where 'a = 32]
  by (simp add: bytes32_def u32le_bytes)

lemma bytes16_le: "bytes16 (word_of_int v) True = u16le v"
  using ucast_drop_bit_of_int[of 8 v, where 'a = 16] ucast_drop_bit_of_int[of 0 v, where 'a = 16]
  by (simp add: bytes16_def u16le_bytes)

lemma bytes16_sample: "bytes16 w True = sample_bytes w"
  using bytes16_le [of "sint w"] by (simp add: sample_bytes_def)

lemma length_sample_bytes [simp]: "length (sample_bytes w) = 2"
  by (simp add: sample_bytes_def)

lemma length_concat_sample_bytes [simp]:
  "length (concat (map sample_bytes pcm)) = 2 * length pcm"
  by (induction pcm) auto

lemma byte_of_charCode: "(word_of_int (charCode c) :: byte) = of_char c"
  by (simp add: charCode_def of_int_of_char of_nat_of_char)

section \<open>The encoder writes the header and the samples\<close>

lemma writeString_take_drop:
  "offset + length s \<le> length view \<Longrightarrow>
   writeString view offset s =
     Inr (take offset view @ ascii s @ drop (offset + length s) view)"
proof (induction s arbitrary: view offset)
  case Nil
  then show ?case by (simp add: ascii_def)
next
  case (Cons c cs)
  let ?view' = "take offset view @ [of_char c] @ drop (offset + 1) view"
  have len: "length ?view' = length view" using Cons.prems by simp
  have "setUint8 view offset (charCode c) = Inr ?view'"
    using Cons.prems by (simp add: setUint8_def SetViewValue_def byte_of_charCode)
  moreover have "writeString ?view' (offset + 1) cs =
      Inr (take (offset + 1) ?view' @ ascii cs @ drop (offset + 1 + length cs) ?view')"
    using Cons.prems len by (intro Cons.IH) simp
  moreover have "take (offset + 1) ?view' = take offset view @ [of_char c]"
    using Cons.prems by simp
  moreover have "drop (offset + 1 + length cs) ?view' = drop (offset + 1 + length cs) view"
    using Cons.prems by (simp add: ac_simps)
  ultimately show ?case
    by (simp add: ascii_def ac_simps)
qed

lemma writeString_first:
  "length s \<le> m \<Longrightarrow>
   writeString (replicate m 0) 0 s = Inr (ascii s @ replicate (m - length s) 0)"
  by (simp add: writeString_take_drop)

lemma writeString_next:
  "length pre = offset \<Longrightarrow> length s \<le> m \<Longrightarrow>
   writeString (pre @ replicate m 0) offset s = Inr ((pre @ ascii s) @ replicate (m - length s) 0)"
  by (simp add: writeString_take_drop)

lemma setUint32_next:
  "length pre = offset \<Longrightarrow> 4 \<le> m \<Longrightarrow>
   setUint32 (pre @ replicate m 0) offset v True = Inr ((pre @ u32le v) @ replicate (m - 4) 0)"
  by (simp add: setUint32_def SetViewValue_def bytes32_le)

lemma setUint16_next:
  "length pre = offset \<Longrightarrow> 2 \<le> m \<Longrightarrow>
   setUint16 (pre @ replicate m 0) offset v True = Inr ((pre @ u16le v) @ replicate (m - 2) 0)"
  by (simp add: setUint16_def SetViewValue_def bytes16_le)

lemma writeSamples_from:
  "length view = 44 + 2 * length pcm \<Longrightarrow> i \<le> length pcm \<Longrightarrow>
   writeSamples view pcm i =
     Inr (take (44 + 2 * i) view @ concat (map sample_bytes (drop i pcm)))"
proof (induction "length pcm - i" arbitrary: i view)
  case 0
  then show ?case by (simp add: writeSamples.simps)
next
  case (Suc k)
  then have lt: "i < length pcm" by simp
  let ?bs = "sample_bytes (pcm ! i)"
  let ?view' = "take (44 + 2 * i) view @ ?bs @ drop (44 + 2 * i + 2) view"
  have set: "setInt16 view (44 + i * 2) (sint (pcm ! i)) True = Inr ?view'"
    using lt Suc.prems by (simp add: setInt16_def SetViewValue_def bytes16_sample mult.commute)
  have len: "length ?view' = 44 + 2 * length pcm"
    using lt Suc.prems by simp
  have "k = length pcm - (i + 1)" using Suc.hyps(2) by simp
  then have "writeSamples ?view' pcm (i + 1) =
      Inr (take (44 + 2 * (i + 1)) ?view' @ concat (map sample_bytes (drop (i + 1) pcm)))"
    using len lt by (intro Suc.hyps(1)) simp_all
  moreover have "take (44 + 2 * (i + 1)) ?view' = take (44 + 2 * i) view @ ?bs"
    using lt Suc.prems by simp
  moreover have "drop i pcm = pcm ! i # drop (i + 1) pcm"
    using lt by (simp add: Cons_nth_drop_Suc)
  ultimately show ?case
    using lt set by (subst writeSamples.simps) simp
qed

lemma length_spec_wav_header [simp]: "length (spec_wav_header n r d) = 44"
  by (simp add: spec_wav_header_def)

lemma createWavBlob_bytes:
  "createWavBlob pcm sampleRate =
     Inr \<lparr>blob_parts = spec_wav_header 1 sampleRate (2 * int (length pcm))
                         @ concat (map sample_bytes pcm),
          blob_type = ''audio/wav''\<rparr>"
  apply (simp add: createWavBlob_def Let_def writeString_first writeString_next setUint32_next
     setUint16_next del: append_assoc writeString.simps)
  apply (simp add: writeSamples_from)
  apply (simp add: spec_wav_header_def mult.commute)
  done

text \<open>The fields of the header, read back as numbers.\<close>

lemma wav_field_header:
  "wav_field 4 4 (spec_wav_header n r d @ body) = nat ((36 + d) mod 4294967296)"
  "wav_field 4 16 (spec_wav_header n r d @ body) = 16"
  "wav_field 2 20 (spec_wav_header n r d @ body) = 1"
  "wav_field 2 22 (spec_wav_header n r d @ body) = nat (n mod 65536)"
  "wav_field 4 24 (spec_wav_header n r d @ body) = nat (r mod 4294967296)"
  "wav_field 4 28 (spec_wav_header n r d @ body) = nat ((r * n * 2) mod 4294967296)"
  "wav_field 2 32 (spec_wav_header n r d @ body) = nat ((n * 2) mod 65536)"
  "wav_field 2 34 (spec_wav_header n r d @ body) = 16"
  "wav_field 4 40 (spec_wav_header n r d @ body) = nat (d mod 4294967296)"
  by (simp_all add: wav_field_def spec_wav_header_def le_value_u32le le_value_u16le)

lemma wav_tag_header:
  "take 4 (spec_wav_header n r d @ body) = ascii ''RIFF''"
  "take 4 (drop 8 (spec_wav_header n r d @ body)) = ascii ''WAVE''"
  "take 4 (drop 12 (spec_wav_header n r d @ body)) = ascii ''fmt ''"
  "take 4 (drop 36 (spec_wav_header n r d @ body)) = ascii ''data''"
  by (simp_all add: spec_wav_header_def)


lemma int16_of_int_mod: "(word_of_int (k mod 65536) :: int16) = word_of_int k"
  by (simp add: word_of_int_eq_iff take_bit_eq_mod)

lemma spec_samples_sample_bytes: "spec_samples (sample_bytes w @ bs) = w # spec_samples bs"
proof -
  let ?s = "sint w"
  have "nat (?s mod 256) + 256 * nat (?s div 256 mod 256) = nat (?s mod 256 + 256 * (?s div 256 mod 256))"
    by (simp add: nat_add_distrib nat_mult_distrib)
  also have "?s mod 256 + 256 * (?s div 256 mod 256) = ?s mod 65536"
    using zmod_zmult2_eq [of 256 ?s 256] by simp
  finally have sum: "nat (?s mod 256) + 256 * nat (?s div 256 mod 256) = nat (?s mod 65536)" .
  have "(word_of_nat (nat (?s mod 65536)) :: int16) = word_of_int (?s mod 65536)"
    by simp
  also have "\<dots> = word_of_int ?s"
    by (rule int16_of_int_mod)
  also have "\<dots> = w"
    by simp
  finally have w: "(word_of_nat (nat (?s mod 65536)) :: int16) = w" .
  have "spec_samples (sample_bytes w @ bs) =
      word_of_nat (unat (word_of_int ?s :: byte) + 256 * unat (word_of_int (?s div 256) :: byte))
        # spec_samples bs"
    by (simp only: sample_bytes_def u16le_bytes append_Cons append_Nil spec_samples.simps)
  also have "\<dots> = w # spec_samples bs"
    by (simp only: unat_byte_of_int sum w)
  finally show ?thesis .
qed

lemma spec_samples_concat: "spec_samples (concat (map sample_bytes S)) = S"
  by (induction S) (simp_all add: spec_samples_sample_bytes)



section \<open>The 16-bit view and the playback buffer\<close>

lemma int16_of_bytes:
  "(ucast (b0 :: byte) OR push_bit 8 (ucast (b1 :: byte)) :: int16)
     = word_of_nat (unat b0 + 256 * unat b1)"
proof -
  have "\<not> bit (ucast b0 :: int16) n \<or> \<not> bit (push_bit 8 (ucast b1) :: int16) n" for n
    by (auto simp add: bit_simps dest: bit_imp_le_length)
  then have "(ucast b0 OR push_bit 8 (ucast b1) :: int16) = ucast b0 + push_bit 8 (ucast b1)"
    by (rule disjunctive_add [symmetric])
  also have "\<dots> = word_of_nat (unat b0 + 256 * unat b1)"
    by (simp add: push_bit_eq_mult)
  finally show ?thesis .
qed

lemma int16s_spec_samples: "int16s data = spec_samples data"
  by (induction data rule: int16s.induct) (simp_all add: int16_of_bytes)

lemma length_int16s [simp]: "length (int16s data) = length data div 2"
  by (induction data rule: int16s.induct) simp_all

lemma new_Int16Array_even:
  "even (length data) \<Longrightarrow> new_Int16Array data = Inr (spec_samples data)"
  by (simp add: new_Int16Array_def int16s_spec_samples)

lemma new_Int16Array_odd:
  "odd (length data) \<Longrightarrow>
   new_Int16Array data = Inl (RangeError ''byte length of Int16Array should be a multiple of 2'')"
  by (simp add: new_Int16Array_def odd_iff_mod_2_eq_one)

lemma length_store [simp]: "length (store cd i v) = length cd"
  by (simp add: store_def)

lemma nth_store: "j < length cd \<Longrightarrow> store cd i v ! j = (if j = i then v else cd ! j)"
  by (simp add: store_def)

lemma length_fillChannel [simp]: "length (fillChannel d nc fc ch cd i) = length cd"
proof (induction d nc fc ch cd i rule: fillChannel.induct)
  case (1 d nc fc ch cd i)
  then show ?case
    by (subst fillChannel.simps) simp
qed

lemma nth_fillChannel:
  "j < length cd \<Longrightarrow>
   fillChannel d nc fc ch cd i ! j =
     (if i \<le> j \<and> real j < fc then normalized d (j * nc + ch) else cd ! j)"
proof (induction d nc fc ch cd i rule: fillChannel.induct)
  case (1 d nc fc ch cd i)
  show ?case
  proof (cases "real i < fc")
    case True
    then have "fillChannel d nc fc ch cd i ! j =
        fillChannel d nc fc ch (store cd i (normalized d (i * nc + ch))) (i + 1) ! j"
      by (subst fillChannel.simps) simp
    also have "\<dots> = (if i + 1 \<le> j \<and> real j < fc then normalized d (j * nc + ch)
        else store cd i (normalized d (i * nc + ch)) ! j)"
      using True "1.prems" by (intro "1.IH") simp_all
    also have "\<dots> = (if i \<le> j \<and> real j < fc then normalized d (j * nc + ch) else cd ! j)"
      using True "1.prems" by (auto simp add: nth_store)
    finally show ?thesis .
  next
    case False
    then have "real j < fc \<Longrightarrow> \<not> i \<le> j"
      by (metis le_less_trans not_less of_nat_le_iff)
    with False show ?thesis
      by (subst fillChannel.simps) auto
  qed
qed

lemma fillChannels_ok:
  "numChannels \<le> length (channels buffer) \<Longrightarrow>
   numberOfChannels buffer = length (channels buffer) \<Longrightarrow>
   fillChannels d numChannels fc buffer channel =
     Inr (buffer\<lparr>channels :=
       map (\<lambda>c. if channel \<le> c \<and> c < numChannels
                then fillChannel d numChannels fc c (channels buffer ! c) 0
                else channels buffer ! c) [0..<length (channels buffer)]\<rparr>)"
proof (induction d numChannels fc buffer channel rule: fillChannels.induct)
  case (1 d numChannels fc buffer channel)
  show ?case
  proof (cases "channel < numChannels")
    case True
    let ?filled = "fillChannel d numChannels fc channel (channels buffer ! channel) 0"
    let ?buffer' = "buffer\<lparr>channels := (channels buffer)[channel := ?filled]\<rparr>"
    have get: "getChannelData buffer channel = Inr (channels buffer ! channel)"
      using True "1.prems" by (simp add: getChannelData_def)
    have "fillChannels d numChannels fc ?buffer' (channel + 1) =
      Inr (?buffer'\<lparr>channels :=
       map (\<lambda>c. if channel + 1 \<le> c \<and> c < numChannels
                then fillChannel d numChannels fc c (channels ?buffer' ! c) 0
                else channels ?buffer' ! c) [0..<length (channels ?buffer')]\<rparr>)"
      using True "1.prems" get by (intro "1.IH") simp_all
    also have "map (\<lambda>c. if channel + 1 \<le> c \<and> c < numChannels
                then fillChannel d numChannels fc c (channels ?buffer' ! c) 0
                else channels ?buffer' ! c) [0..<length (channels ?buffer')]
        = map (\<lambda>c. if channel \<le> c \<and> c < numChannels
                then fillChannel d numChannels fc c (channels buffer ! c) 0
                else channels buffer ! c) [0..<length (channels buffer)]"
      using True "1.prems" by (auto simp add: nth_list_update)
    finally show ?thesis
      using True get by (subst fillChannels.simps) simp
  next
    case False
    have "map (\<lambda>c. if channel \<le> c \<and> c < numChannels
                then fillChannel d numChannels fc c (channels buffer ! c) 0
                else channels buffer ! c) [0..<length (channels buffer)] = channels buffer"
      using False by (intro nth_equalityI) auto
    with False show ?thesis
      by (subst fillChannels.simps) simp
  qed
qed


lemma frame_index_bound:
  assumes "i < n div nc" and "c < nc"
  shows "i * nc + c < (n :: nat)"
proof -
  have "i * nc + c < (i + 1) * nc"
    using assms(2) by simp
  also have "\<dots> \<le> (n div nc) * nc"
    using assms(1) by (intro mult_le_mono1) simp
  also have "\<dots> \<le> n"
    by simp
  finally show ?thesis .
qed

lemma frame_below_quotient:
  assumes "i < n div nc" and "0 < nc"
  shows "real i < real n / real nc"
proof -
  have "i * nc + 0 < n"
    using assms by (intro frame_index_bound) simp_all
  then have "real (i * nc) < real n"
    by (simp only: add_0_right of_nat_less_iff)
  then show ?thesis
    using assms(2) by (simp add: pos_less_divide_eq)
qed

lemma fillChannel_silent:
  assumes "0 < nc" and "c < nc"
  shows "fillChannel d nc (real (length d) / real nc) c (replicate (length d div nc) (Num 0)) 0
    = map (\<lambda>i. Num (real_of_int (sint (d ! (i * nc + c))) / 32768)) [0..<length d div nc]"
proof (rule nth_equalityI)
  show "length (fillChannel d nc (real (length d) / real nc) c
      (replicate (length d div nc) (Num 0)) 0)
    = length (map (\<lambda>i. Num (real_of_int (sint (d ! (i * nc + c))) / 32768))
        [0..<length d div nc])"
    by simp
next
  fix i
  assume "i < length (fillChannel d nc (real (length d) / real nc) c
      (replicate (length d div nc) (Num 0)) 0)"
  then have i: "i < length d div nc" by simp
  then have "real i < real (length d) / real nc" and "i * nc + c < length d"
    using assms by (simp_all add: frame_below_quotient frame_index_bound)
  with i show "fillChannel d nc (real (length d) / real nc) c
      (replicate (length d div nc) (Num 0)) 0 ! i
    = map (\<lambda>i. Num (real_of_int (sint (d ! (i * nc + c))) / 32768)) [0..<length d div nc] ! i"
    by (simp add: nth_fillChannel normalized_def)
qed

lemma decodeAudioData_ok:
  assumes "even (length data)"
    and "1 \<le> nc" and "nc \<le> maxChannels ctx" and "nc < 4294967296"
    and "nc \<le> length data div 2" and "length data div 2 div nc < 4294967296"
    and "minRate ctx \<le> sr" and "sr \<le> maxRate ctx"
  shows "decodeAudioData data ctx sr nc =
    Inr \<lparr>numberOfChannels = nc, frames = length data div 2 div nc, buf_sampleRate = sr,
         channels = map (\<lambda>c. map (\<lambda>i.
             Num (real_of_int (sint (spec_samples data ! (i * nc + c))) / 32768))
           [0..<length data div 2 div nc]) [0..<nc]\<rparr>"
proof -
  let ?d = "spec_samples data"
  let ?F = "length data div 2 div nc"
  let ?fc = "real (length ?d) / real nc"
  have len: "length ?d = length data div 2"
    using length_int16s [of data] by (simp add: int16s_spec_samples)
  have view: "new_Int16Array data = Inr ?d"
    using assms(1) by (rule new_Int16Array_even)
  have "\<lfloor>?fc\<rfloor> = int (length ?d div nc)"
    by (simp add: floor_divide_of_nat_eq)
  then have fl: "nat \<lfloor>?fc\<rfloor> = ?F"
    by (simp add: len)
  have pos: "0 < ?F"
    using assms(2,5) by (simp add: div_greater_zero_iff)
  let ?silent = "\<lparr>numberOfChannels = nc, frames = ?F, buf_sampleRate = sr,
      channels = replicate nc (replicate ?F (Num 0))\<rparr>"
  have cb: "createBuffer ctx nc ?fc sr = Inr ?silent"
    using assms pos by (simp add: createBuffer_def fl Let_def)
  have "fillChannels ?d nc ?fc ?silent 0 =
      Inr (?silent\<lparr>channels :=
        map (\<lambda>c. if 0 \<le> c \<and> c < nc
                then fillChannel ?d nc ?fc c (channels ?silent ! c) 0
                else channels ?silent ! c) [0..<length (channels ?silent)]\<rparr>)"
    by (rule fillChannels_ok) simp_all
  also have "map (\<lambda>c. if 0 \<le> c \<and> c < nc
                then fillChannel ?d nc ?fc c (channels ?silent ! c) 0
                else channels ?silent ! c) [0..<length (channels ?silent)]
      = map (\<lambda>c. map (\<lambda>i. Num (real_of_int (sint (?d ! (i * nc + c))) / 32768))
           [0..<?F]) [0..<nc]"
    using assms(2) fillChannel_silent [of nc _ ?d] by (simp add: len)
  finally show ?thesis
    by (simp add: decodeAudioData_def view cb)
qed

lemma decodeAudioData_odd:
  "odd (length data) \<Longrightarrow>
   decodeAudioData data ctx sr nc =
     Inl (RangeError ''byte length of Int16Array should be a multiple of 2'')"
  by (simp add: decodeAudioData_def new_Int16Array_odd)

lemma normalized_bounds:
  "- 1 \<le> real_of_int (sint (w :: int16)) / 32768" "real_of_int (sint (w :: int16)) / 32768 < 1"
proof -
  have "- 32768 \<le> sint w" "sint w < 32768"
    using sint_ge [of w] sint_lt [of w] by simp_all
  then have "real_of_int (- 32768) \<le> real_of_int (sint w)"
    and "real_of_int (sint w) < real_of_int 32768"
    by (simp_all only: of_int_le_iff of_int_less_iff)
  then show "- 1 \<le> real_of_int (sint w) / 32768" "real_of_int (sint w) / 32768 < 1"
    by (simp_all del: of_int_sint)
qed

lemma upt_0_2: "[0..<2] = [0, Suc 0]"
  by (simp add: numeral_2_eq_2)

section \<open>The handlers\<close>

lemma startRequest_eq:
  "startRequest st =
     st\<lparr>isLoading := True, error := None, audioUrl := None, audioBuffer := None,
        objectURLs := (case audioUrl st of None \<Rightarrow> objectURLs st
                       | Some u \<Rightarrow> (objectURLs st)(u := None))\<rparr>"
  by (simp add: startRequest_def setAudioUrl_def revokeObjectURL_def Let_def
      split: option.splits)

lemma ensureContext_cases:
  "ensureContext p st =
     (case audioContextRef st of
        Some c \<Rightarrow> Inr (c, st)
      | None \<Rightarrow>
          if 24000 < p_minRate p \<or> p_maxRate p < 24000 then Inl NotSupportedError
          else Inr (\<lparr>ctx_id = contextsCreated st, ctx_sampleRate = 24000,
                      ctx_state = (if p_autoplay p then Running else Suspended),
                      maxChannels = p_maxChannels p, minRate = p_minRate p,
                      maxRate = p_maxRate p\<rparr>,
                    st\<lparr>contextsCreated := contextsCreated st + 1,
                       audioContextRef := Some \<lparr>ctx_id = contextsCreated st, ctx_sampleRate = 24000,
                      ctx_state = (if p_autoplay p then Running else Suspended),
                      maxChannels = p_maxChannels p, minRate = p_minRate p,
                      maxRate = p_maxRate p\<rparr>\<rparr>))"
  by (simp add: ensureContext_def new_AudioContext_def split: option.splits)

lemma ensureContext_frame:
  assumes "ensureContext p st = Inr (ctx, st1)"
  shows "audioContextRef st1 = Some ctx" "audioUrl st1 = audioUrl st"
    "objectURLs st1 = objectURLs st" "urlsCreated st1 = urlsCreated st"
    "audioBuffer st1 = audioBuffer st" "error st1 = error st" "isLoading st1 = isLoading st"
    "started st1 = started st" "text_in st1 = text_in st"
  using assms by (auto simp add: ensureContext_cases split: option.splits if_splits)

text \<open>What the \<^verbatim>\<open>try\<close> block leaves, by the step that fails.\<close>

lemma tryBlock_speech_fails:
  assumes "ensureContext p st = Inr (ctx, st1)" and "generateSpeech outcome = Inl e"
  shows "tryBlock p outcome st = (st1, Some e)"
  using assms by (simp add: tryBlock_def)

lemma tryBlock_chain:
  assumes "ensureContext p st = Inr (ctx, st1)" and "generateSpeech outcome = Inr b"
    and "audioUrl st = None"
  shows "tryBlock p outcome st =
    (case spec_chain ctx b of
       Inr (wav, buffer) \<Rightarrow>
         (st1\<lparr>objectURLs := (objectURLs st1)(urlsCreated st1 \<mapsto> wav),
              urlsCreated := urlsCreated st1 + 1,
              audioUrl := Some (urlsCreated st1),
              audioBuffer := Some buffer\<rparr>, None)
     | Inl e \<Rightarrow>
         (case andThen (decode b) new_Int16Array of
            Inl _ \<Rightarrow> (st1, Some e)
          | Inr pcm \<Rightarrow>
              (case createWavBlob pcm 24000 of
                 Inl _ \<Rightarrow> (st1, Some e)
               | Inr wav \<Rightarrow>
                  (st1\<lparr>objectURLs := (objectURLs st1)(urlsCreated st1 \<mapsto> wav),
                       urlsCreated := urlsCreated st1 + 1,
                       audioUrl := Some (urlsCreated st1)\<rparr>, Some e))))"
  using assms ensureContext_frame(2) [OF assms(1)]
  by (auto simp add: tryBlock_def spec_chain_def createObjectURL_def setAudioUrl_def
      andThen_def Let_def split: sum.splits prod.splits)


lemma revoke_only_url: "dom m = {u} \<Longrightarrow> m(u := None) = Map.empty"
proof (rule ext)
  fix x
  assume d: "dom m = {u}"
  show "(m(u := None)) x = Map.empty x"
  proof (cases "x = u")
    case True
    then show ?thesis by simp
  next
    case False
    with d have "x \<notin> dom m" by simp
    with False show ?thesis by (simp add: domIff)
  qed
qed

lemma tryBlock_no_context:
  "ensureContext p st = Inl e \<Longrightarrow> tryBlock p outcome st = (st, Some e)"
  by (simp add: tryBlock_def)

text \<open>The blob URLs: the one of the state, if any, is alive and no other is.\<close>

lemma tryBlock_urls:
  assumes "audioUrl st = None" and "objectURLs st = Map.empty"
    and "tryBlock p outcome st = (st', thrown)"
  shows "dom (objectURLs st') = set_option (audioUrl st')
    \<and> (\<forall>u \<in> dom (objectURLs st'). urlsCreated st \<le> u \<and> u < urlsCreated st')
    \<and> urlsCreated st \<le> urlsCreated st'"
proof (cases "ensureContext p st")
  case (Inl e)
  with assms show ?thesis
    by (simp add: tryBlock_no_context)
next
  case (Inr r)
  then obtain ctx st1 where ens: "ensureContext p st = Inr (ctx, st1)"
    by (cases r) simp
  note fr = ensureContext_frame [OF ens]
  show ?thesis
  proof (cases "generateSpeech outcome")
    case (Inl e)
    with assms ens fr show ?thesis
      by (simp add: tryBlock_speech_fails)
  next
    case (Inr b)
    from assms(3) show ?thesis
      unfolding tryBlock_chain [OF ens Inr assms(1)]
      using assms(1,2) fr
      by (auto split: sum.splits prod.splits if_splits)
  qed
qed

lemma handleGenerate_urls:
  assumes "dom (objectURLs st) = set_option (audioUrl st)"
    and "\<forall>u \<in> dom (objectURLs st). u < urlsCreated st"
  shows "dom (objectURLs (handleGenerate p t outcome st))
      = set_option (audioUrl (handleGenerate p t outcome st))"
    and "\<forall>u \<in> dom (objectURLs (handleGenerate p t outcome st)).
      u < urlsCreated (handleGenerate p t outcome st)"
    and "trim (text_in st) \<noteq> [] \<Longrightarrow>
      \<forall>u \<in> dom (objectURLs (handleGenerate p t outcome st)). urlsCreated st \<le> u"
proof -
  let ?s0 = "startRequest st"
  obtain st' thrown where tb: "tryBlock p outcome ?s0 = (st', thrown)"
    by (cases "tryBlock p outcome ?s0") simp
  have s0: "audioUrl ?s0 = None" "objectURLs ?s0 = Map.empty" "urlsCreated ?s0 = urlsCreated st"
    using assms(1) by (auto simp add: startRequest_eq revoke_only_url split: option.splits)
  note u = tryBlock_urls [OF s0(1,2) tb]
  show "dom (objectURLs (handleGenerate p t outcome st))
      = set_option (audioUrl (handleGenerate p t outcome st))"
    using assms(1) u tb by (auto simp add: handleGenerate_def split: option.splits)
  show "\<forall>u \<in> dom (objectURLs (handleGenerate p t outcome st)).
      u < urlsCreated (handleGenerate p t outcome st)"
    using assms(2) u tb by (auto simp add: handleGenerate_def split: option.splits)
  show "\<forall>u \<in> dom (objectURLs (handleGenerate p t outcome st)). urlsCreated st \<le> u"
    if "trim (text_in st) \<noteq> []"
    using that u tb s0(3) by (auto simp add: handleGenerate_def split: option.splits)
qed


lemma run_snoc: "run p t (evs @ [ev]) = step p t (run p t evs) ev"
  by (simp add: run_def)

lemma handlePlay_frame:
  "objectURLs (handlePlay st) = objectURLs st" "audioUrl (handlePlay st) = audioUrl st"
  "urlsCreated (handlePlay st) = urlsCreated st"
  "contextsCreated (handlePlay st) = contextsCreated st"
  "audioBuffer (handlePlay st) = audioBuffer st" "text_in (handlePlay st) = text_in st"
  by (simp_all add: handlePlay_def Let_def split: option.splits)

lemma handlePlay_no_context:
  "audioContextRef st = None \<Longrightarrow> audioContextRef (handlePlay st) = None"
  by (simp add: handlePlay_def split: option.splits)

lemma handlePlay_same_context:
  "audioContextRef st = Some c \<Longrightarrow>
   \<exists>c'. audioContextRef (handlePlay st) = Some c' \<and> ctx_id c' = ctx_id c
     \<and> ctx_sampleRate c' = ctx_sampleRate c \<and> maxChannels c' = maxChannels c
     \<and> minRate c' = minRate c \<and> maxRate c' = maxRate c"
  by (simp add: handlePlay_def Let_def split: option.splits)

lemma step_urls:
  assumes "dom (objectURLs st) = set_option (audioUrl st)"
    and "\<forall>u \<in> dom (objectURLs st). u < urlsCreated st"
  shows "dom (objectURLs (step p t st ev)) = set_option (audioUrl (step p t st ev))"
    and "\<forall>u \<in> dom (objectURLs (step p t st ev)). u < urlsCreated (step p t st ev)"
  using assms handleGenerate_urls(1,2) [OF assms]
  by (cases ev; simp add: handlePlay_frame)+

lemma run_urls:
  "dom (objectURLs (run p t evs)) = set_option (audioUrl (run p t evs))
   \<and> (\<forall>u \<in> dom (objectURLs (run p t evs)). u < urlsCreated (run p t evs))"
proof (induction evs rule: rev_induct)
  case Nil
  show ?case by (simp add: run_def initial_def)
next
  case (snoc ev evs)
  then show ?case
    using step_urls [of "run p t evs" p t ev] by (simp add: run_snoc)
qed

text \<open>The audio context: none made and none held, or one made and that one held.\<close>

lemma tryBlock_context:
  assumes "tryBlock p outcome st = (st', thrown)"
  shows "(case ensureContext p st of
            Inl e \<Rightarrow> audioContextRef st' = audioContextRef st
                      \<and> contextsCreated st' = contextsCreated st
          | Inr (ctx, st1) \<Rightarrow> audioContextRef st' = Some ctx
                      \<and> contextsCreated st' = contextsCreated st1)"
  using assms
  by (auto simp add: tryBlock_def createObjectURL_def setAudioUrl_def revokeObjectURL_def Let_def
      ensureContext_cases split: sum.splits prod.splits option.splits if_splits)

lemma handleGenerate_context:
  "audioContextRef (handleGenerate p t outcome st) =
     (if trim (text_in st) = [] then audioContextRef st
      else (case ensureContext p (startRequest st) of
              Inl e \<Rightarrow> audioContextRef st | Inr (ctx, st1) \<Rightarrow> Some ctx))"
  "contextsCreated (handleGenerate p t outcome st) =
     (if trim (text_in st) = [] then contextsCreated st
      else (case ensureContext p (startRequest st) of
              Inl e \<Rightarrow> contextsCreated st | Inr (ctx, st1) \<Rightarrow> contextsCreated st1))"
proof -
  obtain st' thrown where tb: "tryBlock p outcome (startRequest st) = (st', thrown)"
    by (cases "tryBlock p outcome (startRequest st)") simp
  have s0: "audioContextRef (startRequest st) = audioContextRef st"
    "contextsCreated (startRequest st) = contextsCreated st"
    by (simp_all add: startRequest_eq)
  show "audioContextRef (handleGenerate p t outcome st) =
     (if trim (text_in st) = [] then audioContextRef st
      else (case ensureContext p (startRequest st) of
              Inl e \<Rightarrow> audioContextRef st | Inr (ctx, st1) \<Rightarrow> Some ctx))"
    using tryBlock_context [OF tb] tb s0
    by (auto simp add: handleGenerate_def split: option.splits sum.splits)
  show "contextsCreated (handleGenerate p t outcome st) =
     (if trim (text_in st) = [] then contextsCreated st
      else (case ensureContext p (startRequest st) of
              Inl e \<Rightarrow> contextsCreated st | Inr (ctx, st1) \<Rightarrow> contextsCreated st1))"
    using tryBlock_context [OF tb] tb s0
    by (auto simp add: handleGenerate_def split: option.splits sum.splits)
qed


lemma step_context:
  assumes "(audioContextRef st = None \<and> contextsCreated st = 0)
    \<or> (\<exists>c. audioContextRef st = Some c \<and> contextsCreated st = 1 \<and> ctx_id c = 0
          \<and> ctx_sampleRate c = 24000 \<and> maxChannels c = p_maxChannels p
          \<and> minRate c = p_minRate p \<and> maxRate c = p_maxRate p)"
  shows "(audioContextRef (step p t st ev) = None \<and> contextsCreated (step p t st ev) = 0)
    \<or> (\<exists>c. audioContextRef (step p t st ev) = Some c \<and> contextsCreated (step p t st ev) = 1
          \<and> ctx_id c = 0 \<and> ctx_sampleRate c = 24000 \<and> maxChannels c = p_maxChannels p
          \<and> minRate c = p_minRate p \<and> maxRate c = p_maxRate p)"
proof (cases ev)
  case (SetText s)
  with assms show ?thesis by simp
next
  case ClearError
  with assms show ?thesis by simp
next
  case (Generate outcome)
  have s0: "audioContextRef (startRequest st) = audioContextRef st"
    "contextsCreated (startRequest st) = contextsCreated st"
    by (simp_all add: startRequest_eq)
  from assms s0 show ?thesis
    by (auto simp add: Generate handleGenerate_context ensureContext_cases)
next
  case Play
  from assms show ?thesis
  proof
    assume "audioContextRef st = None \<and> contextsCreated st = 0"
    then show ?thesis
      by (simp add: Play handlePlay_frame handlePlay_no_context)
  next
    assume "\<exists>c. audioContextRef st = Some c \<and> contextsCreated st = 1 \<and> ctx_id c = 0
          \<and> ctx_sampleRate c = 24000 \<and> maxChannels c = p_maxChannels p
          \<and> minRate c = p_minRate p \<and> maxRate c = p_maxRate p"
    then obtain c where c: "audioContextRef st = Some c" "contextsCreated st = 1" "ctx_id c = 0"
      "ctx_sampleRate c = 24000" "maxChannels c = p_maxChannels p"
      "minRate c = p_minRate p" "maxRate c = p_maxRate p"
      by blast
    from handlePlay_same_context [OF c(1)] c show ?thesis
      by (auto simp add: Play handlePlay_frame)
  qed
qed

lemma run_context:
  "(audioContextRef (run p t evs) = None \<and> contextsCreated (run p t evs) = 0)
    \<or> (\<exists>c. audioContextRef (run p t evs) = Some c \<and> contextsCreated (run p t evs) = 1
          \<and> ctx_id c = 0 \<and> ctx_sampleRate c = 24000 \<and> maxChannels c = p_maxChannels p
          \<and> minRate c = p_minRate p \<and> maxRate c = p_maxRate p)"
proof (induction evs rule: rev_induct)
  case Nil
  show ?case by (simp add: run_def initial_def)
next
  case (snoc ev evs)
  then show ?case
    unfolding run_snoc by (rule step_context)
qed

lemma step_keeps_context:
  assumes "audioContextRef st = Some c"
  shows "contextsCreated (step p t st ev) = contextsCreated st
    \<and> (\<exists>c'. audioContextRef (step p t st ev) = Some c' \<and> ctx_id c' = ctx_id c
           \<and> ctx_sampleRate c' = ctx_sampleRate c)"
proof (cases ev)
  case (Generate outcome)
  have "audioContextRef (startRequest st) = Some c"
    using assms by (simp add: startRequest_eq)
  with assms show ?thesis
    by (simp add: Generate handleGenerate_context ensureContext_cases startRequest_eq)
next
  case Play
  with handlePlay_same_context [OF assms] show ?thesis
    by (auto simp add: handlePlay_frame)
qed (use assms in simp_all)

lemma run_without_generate:
  "(\<forall>outcome. Generate outcome \<notin> set evs) \<Longrightarrow>
   audioContextRef (run p t evs) = None \<and> audioBuffer (run p t evs) = None"
proof (induction evs rule: rev_induct)
  case Nil
  show ?case by (simp add: run_def initial_def)
next
  case (snoc ev evs)
  then have "audioContextRef (run p t evs) = None \<and> audioBuffer (run p t evs) = None"
    by simp
  moreover from snoc.prems have "\<forall>outcome. ev \<noteq> Generate outcome"
    by auto
  ultimately show ?case
    unfolding run_snoc by (cases ev) (simp_all add: handlePlay_def)
qed


text \<open>The whole handler, when the chain succeeds and when a step of it fails.\<close>

lemma startRequest_frame:
  "audioUrl (startRequest st) = None" "audioBuffer (startRequest st) = None"
  "audioContextRef (startRequest st) = audioContextRef st"
  "contextsCreated (startRequest st) = contextsCreated st"
  "urlsCreated (startRequest st) = urlsCreated st"
  "text_in (startRequest st) = text_in st" "started (startRequest st) = started st"
  "error (startRequest st) = None" "isLoading (startRequest st) = True"
  by (simp_all add: startRequest_eq)

lemma handleGenerate_success:
  assumes "trim (text_in st) \<noteq> []"
    and "ensureContext p (startRequest st) = Inr (ctx, st1)"
    and "generateSpeech outcome = Inr b"
    and "spec_chain ctx b = Inr (wav, buffer)"
  shows "handleGenerate p t outcome st =
    st1\<lparr>objectURLs := (objectURLs st1)(urlsCreated st1 \<mapsto> wav),
        urlsCreated := urlsCreated st1 + 1,
        audioUrl := Some (urlsCreated st1),
        audioBuffer := Some buffer,
        isLoading := False\<rparr>"
  using assms(1) tryBlock_chain [OF assms(2,3) startRequest_frame(1)]
  by (simp add: handleGenerate_def assms(4))

lemma handleGenerate_failure:
  assumes "trim (text_in st) \<noteq> []"
    and "ensureContext p (startRequest st) = Inr (ctx, st1)"
    and "generateSpeech outcome = Inl e
         \<or> (\<exists>b. generateSpeech outcome = Inr b \<and> spec_chain ctx b = Inl e)"
  shows "error (handleGenerate p t outcome st) =
      Some (if instanceof_Error e then t ''errorPrefix'' @ '' '' @ message e
            else t ''errorUnknown'')"
    and "audioBuffer (handleGenerate p t outcome st) = None"
    and "isLoading (handleGenerate p t outcome st) = False"
proof -
  note fr = ensureContext_frame [OF assms(2)]
  have "\<exists>st'. tryBlock p outcome (startRequest st) = (st', Some e)
      \<and> audioBuffer st' = None"
    using assms(3)
  proof
    assume "generateSpeech outcome = Inl e"
    then show ?thesis
      using tryBlock_speech_fails [OF assms(2)] fr by (simp add: startRequest_frame)
  next
    assume "\<exists>b. generateSpeech outcome = Inr b \<and> spec_chain ctx b = Inl e"
    then obtain b where b: "generateSpeech outcome = Inr b" "spec_chain ctx b = Inl e"
      by blast
    show ?thesis
      unfolding tryBlock_chain [OF assms(2) b(1) startRequest_frame(1)]
      using fr b(2) by (auto simp add: startRequest_frame split: sum.splits)
  qed
  then obtain st' where st': "tryBlock p outcome (startRequest st) = (st', Some e)"
    "audioBuffer st' = None"
    by blast
  with assms(1) show "error (handleGenerate p t outcome st) =
      Some (if instanceof_Error e then t ''errorPrefix'' @ '' '' @ message e
            else t ''errorUnknown'')"
    and "audioBuffer (handleGenerate p t outcome st) = None"
    and "isLoading (handleGenerate p t outcome st) = False"
    by (simp_all add: handleGenerate_def)
qed

lemma generateSpeech_error:
  "generateSpeech outcome = Inl e \<Longrightarrow> e = Error ''Failed to generate speech.''"
  by (auto simp add: generateSpeech_def split: api_outcome.splits option.splits if_splits)

text \<open>Whatever a step of the chain throws is an \<^verbatim>\<open>Error\<close>.\<close>

lemma fillChannels_error:
  "fillChannels d nc fc buffer channel = Inl e \<Longrightarrow> instanceof_Error e"
proof (induction d nc fc buffer channel rule: fillChannels.induct)
  case (1 d nc fc buffer channel)
  show ?case
  proof (cases "channel < nc")
    case False
    with "1.prems" show ?thesis
      by (subst (asm) fillChannels.simps) simp
  next
    case True
    show ?thesis
    proof (cases "getChannelData buffer channel")
      case (Inl x)
      then have "x = IndexSizeError"
        by (simp add: getChannelData_def split: if_splits)
      moreover from "1.prems" True Inl have "e = x"
        by (subst (asm) fillChannels.simps) simp
      ultimately show ?thesis
        by (simp add: IndexSizeError_def)
    next
      case (Inr channelData)
      with "1.prems" True
      have "fillChannels d nc fc
          (buffer\<lparr>channels := (channels buffer)
             [channel := fillChannel d nc fc channel channelData 0]\<rparr>) (channel + 1) = Inl e"
        by (subst (asm) fillChannels.simps) simp
      with True Inr "1.IH" show ?thesis
        by blast
    qed
  qed
qed

lemma chain_error_is_Error:
  assumes "spec_chain ctx b = Inl e"
  shows "instanceof_Error e"
proof -
  have at: "atob s = Inl x \<Longrightarrow> instanceof_Error x" for s x
    by (auto simp add: atob_def Let_def split: if_splits option.splits)
  have dec: "decode s = Inl x \<Longrightarrow> instanceof_Error x" for s x
    using at [of s x] by (cases "atob s") (simp_all add: decode_def)
  have view: "new_Int16Array bs = Inl x \<Longrightarrow> instanceof_Error x" for bs x
    by (auto simp add: new_Int16Array_def split: if_splits)
  have cb: "createBuffer ctx n l r = Inl x \<Longrightarrow> instanceof_Error x" for n l r x
    by (auto simp add: createBuffer_def Let_def NotSupportedError_def split: if_splits)
  have conv: "decodeAudioData bs ctx r n = Inl x \<Longrightarrow> instanceof_Error x" for bs r n x
    using view [of bs x] cb fillChannels_error
    by (auto simp add: decodeAudioData_def andThen_def Let_def split: sum.splits)
  from assms show ?thesis
    using dec view conv
    by (auto simp add: spec_chain_def andThen_def createWavBlob_bytes split: sum.splits)
qed

section \<open>Two samples, end to end\<close>

lemma atob_sample: "atob ''AAD/fw=='' = Inr [CHR 0x00, CHR 0x00, CHR 0xFF, CHR 0x7F]"
  by code_simp

lemma decode_sample: "decode ''AAD/fw=='' = Inr [0, 0, 255, 127]"
  by (simp add: decode_def atob_sample charCode_def)

lemma chain_two_samples:
  assumes "decode b = Inr [0, 0, 255, 127]"
    and "1 \<le> maxChannels ctx" and "minRate ctx \<le> 24000" and "24000 \<le> maxRate ctx"
  shows "spec_chain ctx b =
    Inr (\<lparr>blob_parts = [82, 73, 70, 70, 40, 0, 0, 0, 87, 65, 86, 69, 102, 109, 116, 32,
                         16, 0, 0, 0, 1, 0, 1, 0, 192, 93, 0, 0, 128, 187, 0, 0, 2, 0, 16, 0,
                         100, 97, 116, 97, 4, 0, 0, 0, 0, 0, 255, 127],
           blob_type = ''audio/wav''\<rparr>,
         \<lparr>numberOfChannels = 1, frames = 2, buf_sampleRate = 24000,
          channels = [[Num 0, Num (32767 / 32768)]]\<rparr>)"
proof -
  have view: "new_Int16Array [0, 0, 255, 127] = Inr [0, 32767]"
    by (simp add: new_Int16Array_def)
  have wav: "createWavBlob [0, 32767] 24000 =
      Inr \<lparr>blob_parts = [82, 73, 70, 70, 40, 0, 0, 0, 87, 65, 86, 69, 102, 109, 116, 32,
                         16, 0, 0, 0, 1, 0, 1, 0, 192, 93, 0, 0, 128, 187, 0, 0, 2, 0, 16, 0,
                         100, 97, 116, 97, 4, 0, 0, 0, 0, 0, 255, 127],
           blob_type = ''audio/wav''\<rparr>"
    by (simp add: createWavBlob_bytes spec_wav_header_def ascii_def u32le_bytes u16le_bytes
        sample_bytes_def)
  have buf: "decodeAudioData [0, 0, 255, 127] ctx 24000 1 =
      Inr \<lparr>numberOfChannels = 1, frames = 2, buf_sampleRate = 24000,
           channels = [[Num 0, Num (32767 / 32768)]]\<rparr>"
    using decodeAudioData_ok [of "[0, 0, 255, 127]" 1 ctx 24000] assms(2-4)
    by (simp add: upt_0_2)
  show ?thesis
    by (simp only: spec_chain_def assms(1) view wav buf andThen_Inr)
qed

text \<open>The state after one successful request for these two samples.\<close>

lemma sample_generated:
  "run \<lparr>p_maxChannels = 32, p_minRate = 8000, p_maxRate = 96000, p_autoplay = False\<rparr>
      (\<lambda>key. key) [SetText ''hello'', Generate (Answered (Some ''AAD/fw==''))] =
   \<lparr>text_in = ''hello'', isLoading = False, error = None, audioUrl = Some 0,
    audioBuffer = Some \<lparr>numberOfChannels = 1, frames = 2, buf_sampleRate = 24000,
                        channels = [[Num 0, Num (32767 / 32768)]]\<rparr>,
    audioContextRef = Some \<lparr>ctx_id = 0, ctx_sampleRate = 24000, ctx_state = Suspended,
                            maxChannels = 32, minRate = 8000, maxRate = 96000\<rparr>,
    objectURLs = [0 \<mapsto> \<lparr>blob_parts =
                        [82, 73, 70, 70, 40, 0, 0, 0, 87, 65, 86, 69, 102, 109, 116, 32,
                         16, 0, 0, 0, 1, 0, 1, 0, 192, 93, 0, 0, 128, 187, 0, 0, 2, 0, 16, 0,
                         100, 97, 116, 97, 4, 0, 0, 0, 0, 0, 255, 127],
                      blob_type = ''audio/wav''\<rparr>],
    urlsCreated = 1, contextsCreated = 1, started = []\<rparr>"
proof -
  let ?p = "\<lparr>p_maxChannels = 32, p_minRate = 8000, p_maxRate = 96000, p_autoplay = False\<rparr>"
  let ?ctx = "\<lparr>ctx_id = 0, ctx_sampleRate = 24000, ctx_state = Suspended,
             maxChannels = 32, minRate = 8000, maxRate = 96000\<rparr>"
  let ?s = "initial\<lparr>text_in := ''hello''\<rparr>"
  have nb: "trim (text_in ?s) \<noteq> []"
    by (simp add: trim_def js_whitespace_def)
  have ens: "ensureContext ?p (startRequest ?s) =
      Inr (?ctx, (startRequest ?s)\<lparr>contextsCreated := 1, audioContextRef := Some ?ctx\<rparr>)"
    by (simp add: ensureContext_cases startRequest_frame initial_def)
  have sp: "generateSpeech (Answered (Some ''AAD/fw=='')) = Inr ''AAD/fw==''"
    by (simp add: generateSpeech_def)
  have ch: "spec_chain ?ctx ''AAD/fw=='' =
    Inr (\<lparr>blob_parts = [82, 73, 70, 70, 40, 0, 0, 0, 87, 65, 86, 69, 102, 109, 116, 32,
                         16, 0, 0, 0, 1, 0, 1, 0, 192, 93, 0, 0, 128, 187, 0, 0, 2, 0, 16, 0,
                         100, 97, 116, 97, 4, 0, 0, 0, 0, 0, 255, 127],
           blob_type = ''audio/wav''\<rparr>,
         \<lparr>numberOfChannels = 1, frames = 2, buf_sampleRate = 24000,
          channels = [[Num 0, Num (32767 / 32768)]]\<rparr>)"
    by (rule chain_two_samples [OF decode_sample]) simp_all
  have "run ?p (\<lambda>key. key) [SetText ''hello'', Generate (Answered (Some ''AAD/fw==''))]
      = handleGenerate ?p (\<lambda>key. key) (Answered (Some ''AAD/fw=='')) ?s"
    by (simp add: run_def)
  also note handleGenerate_success [OF nb ens sp ch]
  finally show ?thesis
    by (simp add: startRequest_eq initial_def)
qed

section \<open>Claims about the encoder\<close>

text \<open>
  Claim C1, as the code has it. For every sequence of 16-bit samples whose data fits the
  container (\<open>36 + 2 * length pcm < 2 ^ 32\<close>) and every sample rate from 1 to
  \<open>2 ^ 31 - 1\<close>, the encoder returns a blob of type \<^verbatim>\<open>audio/wav\<close> of \<open>44 + 2 * length pcm\<close>
  bytes. Its first 44 bytes are the header of section 4.3 for one channel: \<^verbatim>\<open>RIFF\<close>, chunk
  size \<open>36 + dataSize\<close>, \<^verbatim>\<open>WAVE\<close>, \<^verbatim>\<open>fmt \<close>, 16, format 1, one channel, the sample rate, byte
  rate \<open>sampleRate * 1 * 2\<close>, block align \<open>1 * 2\<close>, 16 bits, \<^verbatim>\<open>data\<close>, the data size, every
  number little-endian; the samples follow. The blob is a function of the two inputs
  and of nothing else.
\<close>

theorem wav_header_fields:
  assumes "0 < sampleRate" and "sampleRate < 2147483648"
    and "36 + 2 * length pcm < 4294967296"
  shows "\<exists>file. createWavBlob pcm sampleRate = Inr \<lparr>blob_parts = file, blob_type = ''audio/wav''\<rparr>
     \<and> length file = 44 + 2 * length pcm
     \<and> take 44 file = spec_wav_header 1 sampleRate (2 * int (length pcm))
     \<and> drop 44 file = concat (map sample_bytes pcm)
     \<and> take 4 file = ascii ''RIFF''
     \<and> wav_field 4 4 file = 36 + 2 * length pcm
     \<and> take 4 (drop 8 file) = ascii ''WAVE''
     \<and> take 4 (drop 12 file) = ascii ''fmt ''
     \<and> wav_field 4 16 file = 16
     \<and> wav_field 2 20 file = 1
     \<and> wav_field 2 22 file = 1
     \<and> wav_field 4 24 file = nat sampleRate
     \<and> wav_field 4 28 file = nat (sampleRate * 1 * 2)
     \<and> wav_field 2 32 file = 1 * 2
     \<and> wav_field 2 34 file = 16
     \<and> take 4 (drop 36 file) = ascii ''data''
     \<and> wav_field 4 40 file = 2 * length pcm"
proof -
  let ?h = "spec_wav_header 1 sampleRate (2 * int (length pcm))"
  let ?body = "concat (map sample_bytes pcm)"
  have d: "(36 + 2 * int (length pcm)) mod 4294967296 = 36 + 2 * int (length pcm)"
      "(2 * int (length pcm)) mod 4294967296 = 2 * int (length pcm)"
    using assms(3) by simp_all
  have r: "sampleRate mod 4294967296 = sampleRate"
      "(sampleRate * 1 * 2) mod 4294967296 = sampleRate * 1 * 2"
    using assms(1,2) by simp_all
  have "createWavBlob pcm sampleRate = Inr \<lparr>blob_parts = ?h @ ?body, blob_type = ''audio/wav''\<rparr>"
    by (rule createWavBlob_bytes)
  moreover have "length (?h @ ?body) = 44 + 2 * length pcm"
    by simp
  moreover have "take 44 (?h @ ?body) = ?h" "drop 44 (?h @ ?body) = ?body"
    by simp_all
  moreover have "wav_field 4 4 (?h @ ?body) = 36 + 2 * length pcm"
      "wav_field 4 40 (?h @ ?body) = 2 * length pcm"
    by (simp_all only: wav_field_header d)
  moreover have "wav_field 4 24 (?h @ ?body) = nat sampleRate"
      "wav_field 4 28 (?h @ ?body) = nat (sampleRate * 1 * 2)"
    by (simp_all only: wav_field_header r)
  moreover have "wav_field 4 16 (?h @ ?body) = 16" "wav_field 2 20 (?h @ ?body) = 1"
      "wav_field 2 22 (?h @ ?body) = 1" "wav_field 2 32 (?h @ ?body) = 1 * 2"
      "wav_field 2 34 (?h @ ?body) = 16"
    by (simp_all add: wav_field_header)
  ultimately show ?thesis
    using wav_tag_header [of 1 sampleRate "2 * int (length pcm)" ?body] by blast
qed

text \<open>
  Witness for C1: no sample at rate 24000 gives the 44 bytes below, with chunk size 36
  and data size 0.
\<close>

theorem wav_header_fields_witness:
  "(0::int) < 24000 \<and> (24000::int) < 2147483648 \<and> 36 + 2 * length ([] :: int16 list) < 4294967296
   \<and> createWavBlob [] 24000 =
       Inr \<lparr>blob_parts = [82, 73, 70, 70, 36, 0, 0, 0, 87, 65, 86, 69, 102, 109, 116, 32,
                            16, 0, 0, 0, 1, 0, 1, 0, 192, 93, 0, 0, 128, 187, 0, 0, 2, 0, 16, 0,
                            100, 97, 116, 97, 0, 0, 0, 0],
            blob_type = ''audio/wav''\<rparr>
   \<and> length [82, 73, 70, 70, 36, 0, 0, 0, 87, 65, 86, 69, 102, 109, 116, 32,
              16, 0, 0, 0, 1, 0, 1, 0, 192, 93, 0, 0, 128, 187, 0, 0, 2, 0, 16, 0,
              100, 97, 116, 97, 0, 0, 0, 0 :: byte] = 44
   \<and> wav_field 4 4 [82, 73, 70, 70, 36, 0, 0, 0, 87, 65, 86, 69, 102, 109, 116, 32,
              16, 0, 0, 0, 1, 0, 1, 0, 192, 93, 0, 0, 128, 187, 0, 0, 2, 0, 16, 0,
              100, 97, 116, 97, 0, 0, 0, 0] = 36
   \<and> wav_field 4 40 [82, 73, 70, 70, 36, 0, 0, 0, 87, 65, 86, 69, 102, 109, 116, 32,
              16, 0, 0, 0, 1, 0, 1, 0, 192, 93, 0, 0, 128, 187, 0, 0, 2, 0, 16, 0,
              100, 97, 116, 97, 0, 0, 0, 0] = 0"
proof -
  have h: "spec_wav_header 1 24000 (2 * int (length ([] :: int16 list))) =
      [82, 73, 70, 70, 36, 0, 0, 0, 87, 65, 86, 69, 102, 109, 116, 32,
       16, 0, 0, 0, 1, 0, 1, 0, 192, 93, 0, 0, 128, 187, 0, 0, 2, 0, 16, 0,
       100, 97, 116, 97, 0, 0, 0, 0]"
    by (simp add: spec_wav_header_def ascii_def u32le_bytes u16le_bytes)
  from wav_header_fields [of 24000 "[]"]
  obtain wav where f: "createWavBlob [] 24000 = Inr \<lparr>blob_parts = wav, blob_type = ''audio/wav''\<rparr>"
    "length wav = 44" "take 44 wav = spec_wav_header 1 24000 (2 * int (length ([] :: int16 list)))"
    "wav_field 4 4 wav = 36" "wav_field 4 40 wav = 0"
    by auto
  from f(2,3) have "wav = spec_wav_header 1 24000 (2 * int (length ([] :: int16 list)))"
    by simp
  with f h show ?thesis by simp
qed

text \<open>
  Counterexample to C1 as stated, for every positive sample rate: at the rate \<open>2 ^ 31\<close>
  the byte rate \<open>sampleRate * 1 * 2\<close> is \<open>2 ^ 32\<close>, which \<^verbatim>\<open>setUint32\<close> reduces to 0, so
  the field at offset 28 holds 0.
\<close>

theorem wav_byte_rate_counterexample:
  "(0::int) < 2147483648
   \<and> createWavBlob [] 2147483648 =
       Inr \<lparr>blob_parts = [82, 73, 70, 70, 36, 0, 0, 0, 87, 65, 86, 69, 102, 109, 116, 32,
                            16, 0, 0, 0, 1, 0, 1, 0, 0, 0, 0, 128, 0, 0, 0, 0, 2, 0, 16, 0,
                            100, 97, 116, 97, 0, 0, 0, 0],
            blob_type = ''audio/wav''\<rparr>
   \<and> wav_field 4 28 [82, 73, 70, 70, 36, 0, 0, 0, 87, 65, 86, 69, 102, 109, 116, 32,
                            16, 0, 0, 0, 1, 0, 1, 0, 0, 0, 0, 128, 0, 0, 0, 0, 2, 0, 16, 0,
                            100, 97, 116, 97, 0, 0, 0, 0] = 0
   \<and> (0::nat) \<noteq> nat (2147483648 * 1 * 2)"
  by (simp add: createWavBlob_bytes spec_wav_header_def ascii_def u32le_bytes u16le_bytes
      wav_field_def)


text \<open>
  Claim C2. For every sequence \<open>S\<close> of 16-bit samples and every sample rate \<open>R\<close> the
  encoder returns a container whose bytes from offset 44 on are the samples of \<open>S\<close>, in
  order, each little-endian, and reading them back gives \<open>S\<close>. When \<open>S\<close> is valid for a
  container, its \<open>2 * length S\<close> bytes being a size the 32-bit field can hold, the reader
  \<open>spec_decodeWav\<close>, which goes by the header, recovers exactly \<open>S\<close>, and the data size
  in the header is \<open>length S * 2\<close>.
\<close>

theorem wav_round_trip:
  "\<exists>wav. createWavBlob S R = Inr \<lparr>blob_parts = wav, blob_type = ''audio/wav''\<rparr>
     \<and> drop 44 wav = concat (map sample_bytes S)
     \<and> spec_samples (drop 44 wav) = S
     \<and> (2 * length S < 4294967296 \<longrightarrow>
            spec_decodeWav wav = Some S \<and> wav_field 4 40 wav = length S * 2)"
proof -
  let ?h = "spec_wav_header 1 R (2 * int (length S))"
  let ?body = "concat (map sample_bytes S)"
  have enc: "createWavBlob S R = Inr \<lparr>blob_parts = ?h @ ?body, blob_type = ''audio/wav''\<rparr>"
    by (rule createWavBlob_bytes)
  have body: "drop 44 (?h @ ?body) = ?body"
    by simp
  have rt: "spec_samples (drop 44 (?h @ ?body)) = S"
    by (simp add: spec_samples_concat)
  have fit: "spec_decodeWav (?h @ ?body) = Some S \<and> wav_field 4 40 (?h @ ?body) = length S * 2"
    if "2 * length S < 4294967296"
  proof -
    have "(2 * int (length S)) mod 4294967296 = 2 * int (length S)"
      using that by simp
    then have size: "wav_field 4 40 (?h @ ?body) = 2 * length S"
      by (simp only: wav_field_header)
    then have "le_value (take 4 (drop 40 (?h @ ?body))) = 2 * length S"
      by (simp only: wav_field_def)
    then have "spec_decodeWav (?h @ ?body) = Some S"
      unfolding spec_decodeWav_def Let_def
      using wav_tag_header [of 1 R "2 * int (length S)" ?body]
      by (simp add: spec_samples_concat)
    with size show ?thesis by simp
  qed
  from enc body rt fit show ?thesis by blast
qed

text \<open>Witness for C2: four samples, the extreme values among them.\<close>

theorem wav_round_trip_witness:
  "createWavBlob [0, 32767, - 32768, - 1] 24000 =
       Inr \<lparr>blob_parts = [82, 73, 70, 70, 44, 0, 0, 0, 87, 65, 86, 69, 102, 109, 116, 32,
                            16, 0, 0, 0, 1, 0, 1, 0, 192, 93, 0, 0, 128, 187, 0, 0, 2, 0, 16, 0,
                            100, 97, 116, 97, 8, 0, 0, 0, 0, 0, 255, 127, 0, 128, 255, 255],
            blob_type = ''audio/wav''\<rparr>
   \<and> 2 * length [0, 32767, - 32768, - 1 :: int16] < 4294967296
   \<and> spec_decodeWav [82, 73, 70, 70, 44, 0, 0, 0, 87, 65, 86, 69, 102, 109, 116, 32,
                            16, 0, 0, 0, 1, 0, 1, 0, 192, 93, 0, 0, 128, 187, 0, 0, 2, 0, 16, 0,
                            100, 97, 116, 97, 8, 0, 0, 0, 0, 0, 255, 127, 0, 128, 255, 255]
       = Some [0, 32767, - 32768, - 1]
   \<and> wav_field 4 40 [82, 73, 70, 70, 44, 0, 0, 0, 87, 65, 86, 69, 102, 109, 116, 32,
                            16, 0, 0, 0, 1, 0, 1, 0, 192, 93, 0, 0, 128, 187, 0, 0, 2, 0, 16, 0,
                            100, 97, 116, 97, 8, 0, 0, 0, 0, 0, 255, 127, 0, 128, 255, 255] = 8"
proof -
  have enc: "createWavBlob [0, 32767, - 32768, - 1] 24000 =
       Inr \<lparr>blob_parts = [82, 73, 70, 70, 44, 0, 0, 0, 87, 65, 86, 69, 102, 109, 116, 32,
                            16, 0, 0, 0, 1, 0, 1, 0, 192, 93, 0, 0, 128, 187, 0, 0, 2, 0, 16, 0,
                            100, 97, 116, 97, 8, 0, 0, 0, 0, 0, 255, 127, 0, 128, 255, 255],
            blob_type = ''audio/wav''\<rparr>"
    by (simp add: createWavBlob_bytes spec_wav_header_def ascii_def u32le_bytes u16le_bytes
        sample_bytes_def)
  from wav_round_trip [of "[0, 32767, - 32768, - 1]" 24000] enc
  show ?thesis by auto
qed

text \<open>
  Claim C6, as the code has it. The encoder has no parameter for the channel count: for
  every sample sequence and sample rate the header says one channel, block align 2 and
  the byte rate \<open>sampleRate * 2\<close> (modulo \<open>2 ^ 32\<close>, the width of the field).
\<close>

theorem encoder_is_mono:
  "\<exists>wav. createWavBlob pcm sampleRate = Inr \<lparr>blob_parts = wav, blob_type = ''audio/wav''\<rparr>
     \<and> wav_field 2 22 wav = 1
     \<and> wav_field 2 32 wav = 2
     \<and> wav_field 4 28 wav = nat ((sampleRate * 2) mod 4294967296)"
  using wav_field_header(4,6,7) [of 1 sampleRate "2 * int (length pcm)"
      "concat (map sample_bytes pcm)"]
  by (simp add: createWavBlob_bytes)

text \<open>
  Counterexample to C6 as stated, with the channel count 2: a caller that holds one
  stereo frame can pass its two samples and nothing more; the header then says 1 channel
  and not 2, block align 2 and not 4, byte rate 48000 and not 96000.
\<close>

theorem encoder_two_channels_counterexample:
  "createWavBlob [1, 2] 24000 =
       Inr \<lparr>blob_parts = [82, 73, 70, 70, 40, 0, 0, 0, 87, 65, 86, 69, 102, 109, 116, 32,
                            16, 0, 0, 0, 1, 0, 1, 0, 192, 93, 0, 0, 128, 187, 0, 0, 2, 0, 16, 0,
                            100, 97, 116, 97, 4, 0, 0, 0, 1, 0, 2, 0],
            blob_type = ''audio/wav''\<rparr>
   \<and> wav_field 2 22 [82, 73, 70, 70, 40, 0, 0, 0, 87, 65, 86, 69, 102, 109, 116, 32,
                            16, 0, 0, 0, 1, 0, 1, 0, 192, 93, 0, 0, 128, 187, 0, 0, 2, 0, 16, 0,
                            100, 97, 116, 97, 4, 0, 0, 0, 1, 0, 2, 0] \<noteq> 2
   \<and> wav_field 2 32 [82, 73, 70, 70, 40, 0, 0, 0, 87, 65, 86, 69, 102, 109, 116, 32,
                            16, 0, 0, 0, 1, 0, 1, 0, 192, 93, 0, 0, 128, 187, 0, 0, 2, 0, 16, 0,
                            100, 97, 116, 97, 4, 0, 0, 0, 1, 0, 2, 0] \<noteq> 2 * 2
   \<and> wav_field 4 28 [82, 73, 70, 70, 40, 0, 0, 0, 87, 65, 86, 69, 102, 109, 116, 32,
                            16, 0, 0, 0, 1, 0, 1, 0, 192, 93, 0, 0, 128, 187, 0, 0, 2, 0, 16, 0,
                            100, 97, 116, 97, 4, 0, 0, 0, 1, 0, 2, 0] \<noteq> 24000 * 2 * 2"
  by (simp add: createWavBlob_bytes spec_wav_header_def ascii_def u32le_bytes u16le_bytes
      sample_bytes_def wav_field_def)


section \<open>Claims about the playback buffer\<close>

text \<open>
  Claim C3, as the code has it. Take raw bytes of even length read as little-endian
  16-bit samples (the view \<open>spec_samples data\<close>), a channel count of at least 1 and a
  sample rate that the audio context supports, and at least one whole frame (the frame
  count and the channel count below \<open>2 ^ 32\<close>). Then the builder returns a buffer with
  that many channels and \<open>samples div nc\<close> frames in which sample \<open>i\<close> of channel \<open>c\<close>
  is sample \<open>i * nc + c\<close> of the interleaved sequence divided by 32768. Every such value
  \<open>v\<close> has \<open>- 1 \<le> v < 1\<close>; the sample -32768 gives -1 and 32767 gives 32767 / 32768.
\<close>

theorem playback_buffer_normalized:
  assumes "even (length data)"
    and "1 \<le> nc" and "nc \<le> maxChannels ctx" and "nc < 4294967296"
    and "nc \<le> length data div 2" and "length data div 2 div nc < 4294967296"
    and "minRate ctx \<le> sr" and "sr \<le> maxRate ctx"
  shows "decodeAudioData data ctx sr nc =
      Inr \<lparr>numberOfChannels = nc, frames = length data div 2 div nc, buf_sampleRate = sr,
           channels = map (\<lambda>c. map (\<lambda>i.
               Num (real_of_int (sint (spec_samples data ! (i * nc + c))) / 32768))
             [0..<length data div 2 div nc]) [0..<nc]\<rparr>
    \<and> (\<forall>c<nc. \<forall>i<length data div 2 div nc.
          i * nc + c < length (spec_samples data)
          \<and> - 1 \<le> real_of_int (sint (spec_samples data ! (i * nc + c))) / 32768
          \<and> real_of_int (sint (spec_samples data ! (i * nc + c))) / 32768 < 1)
    \<and> real_of_int (sint (- 32768 :: int16)) / 32768 = - 1
    \<and> real_of_int (sint (32767 :: int16)) / 32768 = 32767 / 32768"
proof -
  have len: "length (spec_samples data) = length data div 2"
    using length_int16s [of data] by (simp add: int16s_spec_samples)
  have "i * nc + c < length (spec_samples data)" if "c < nc" "i < length data div 2 div nc" for c i
    using that by (simp add: len frame_index_bound)
  then show ?thesis
    using decodeAudioData_ok [OF assms] normalized_bounds by simp
qed

text \<open>
  Witness for C3: two stereo frames, the samples -32768, 32767, 0 and 1.
\<close>

theorem playback_buffer_normalized_witness:
  "even (length [0, 128, 255, 127, 0, 0, 1, 0 :: byte])
   \<and> (1::nat) \<le> 2 \<and> (2::nat) \<le> 32 \<and> (2::nat) < 4294967296
   \<and> 2 \<le> length [0, 128, 255, 127, 0, 0, 1, 0 :: byte] div 2
   \<and> length [0, 128, 255, 127, 0, 0, 1, 0 :: byte] div 2 div 2 < 4294967296
   \<and> (8000::int) \<le> 24000 \<and> (24000::int) \<le> 96000
   \<and> decodeAudioData [0, 128, 255, 127, 0, 0, 1, 0]
         \<lparr>ctx_id = 0, ctx_sampleRate = 24000, ctx_state = Running,
          maxChannels = 32, minRate = 8000, maxRate = 96000\<rparr> 24000 2 =
       Inr \<lparr>numberOfChannels = 2, frames = 2, buf_sampleRate = 24000,
            channels = [[Num (- 1), Num 0], [Num (32767 / 32768), Num (1 / 32768)]]\<rparr>"
  using playback_buffer_normalized [of "[0, 128, 255, 127, 0, 0, 1, 0]" 2
      "\<lparr>ctx_id = 0, ctx_sampleRate = 24000, ctx_state = Running,
        maxChannels = 32, minRate = 8000, maxRate = 96000\<rparr>" 24000]
  by (simp add: upt_0_2)

text \<open>
  Counterexample to C3 as stated, for every view: the view with no frame. The frame
  count is 0, \<^verbatim>\<open>createBuffer\<close> refuses a buffer of length 0, and the builder throws
  \<^verbatim>\<open>NotSupportedError\<close> where the claim has it produce the arrays.
\<close>

theorem playback_buffer_empty_counterexample:
  "(1::nat) \<ge> 1
   \<and> decodeAudioData []
         \<lparr>ctx_id = 0, ctx_sampleRate = 24000, ctx_state = Running,
          maxChannels = 32, minRate = 8000, maxRate = 96000\<rparr> 24000 1 =
       Inl (DOMException ''NotSupportedError'' ''The operation is not supported.'')"
  by (simp add: decodeAudioData_def new_Int16Array_def createBuffer_def NotSupportedError_def)

text \<open>
  Claim C4, as the code has it. An odd number of bytes is rejected, for every channel
  count: \<^verbatim>\<open>new Int16Array\<close> throws a \<^verbatim>\<open>RangeError\<close> (the code has no
  \<^verbatim>\<open>MalformedAudioError\<close>). An even number of bytes is never rejected for its length: when
  the context supports the channel count and the rate and there is at least one whole
  frame, the buffer has \<open>length data div (2 * nc)\<close> frames, the quotient rounded down,
  filled from the first \<open>frames * nc\<close> samples; samples after them are left out. For an
  exact multiple that is \<open>length data / (2 * nc)\<close>, 5 for 10 bytes mono.
\<close>

theorem pcm_length_check:
  "(odd (length data) \<longrightarrow>
      decodeAudioData data ctx sr nc =
        Inl (RangeError ''byte length of Int16Array should be a multiple of 2''))
   \<and> (even (length data) \<and> 1 \<le> nc \<and> nc \<le> maxChannels ctx \<and> nc < 4294967296
        \<and> nc \<le> length data div 2 \<and> length data div 2 div nc < 4294967296
        \<and> minRate ctx \<le> sr \<and> sr \<le> maxRate ctx \<longrightarrow>
      decodeAudioData data ctx sr nc =
        Inr \<lparr>numberOfChannels = nc, frames = length data div (2 * nc), buf_sampleRate = sr,
             channels = map (\<lambda>c. map (\<lambda>i.
                 Num (real_of_int (sint (spec_samples data ! (i * nc + c))) / 32768))
               [0..<length data div (2 * nc)]) [0..<nc]\<rparr>)"
proof -
  have "length data div 2 div nc = length data div (2 * nc)"
    by (simp add: div_mult2_eq)
  then show ?thesis
    using decodeAudioData_ok [of data nc ctx sr] decodeAudioData_odd [of data ctx sr nc]
    by simp
qed

text \<open>
  Witness for C4: 9 bytes mono are rejected, 10 bytes mono give 5 frames.
\<close>

theorem pcm_length_check_witness:
  "odd (length [1, 0, 2, 0, 3, 0, 4, 0, 5 :: byte])
   \<and> decodeAudioData [1, 0, 2, 0, 3, 0, 4, 0, 5]
         \<lparr>ctx_id = 0, ctx_sampleRate = 24000, ctx_state = Running,
          maxChannels = 32, minRate = 8000, maxRate = 96000\<rparr> 24000 1 =
       Inl (RangeError ''byte length of Int16Array should be a multiple of 2'')
   \<and> even (length [1, 0, 2, 0, 3, 0, 4, 0, 5, 0 :: byte])
   \<and> (1::nat) \<le> 1 \<and> (1::nat) \<le> 32 \<and> (1::nat) < 4294967296
   \<and> 1 \<le> length [1, 0, 2, 0, 3, 0, 4, 0, 5, 0 :: byte] div 2
   \<and> length [1, 0, 2, 0, 3, 0, 4, 0, 5, 0 :: byte] div 2 div 1 < 4294967296
   \<and> (8000::int) \<le> 24000 \<and> (24000::int) \<le> 96000
   \<and> decodeAudioData [1, 0, 2, 0, 3, 0, 4, 0, 5, 0]
         \<lparr>ctx_id = 0, ctx_sampleRate = 24000, ctx_state = Running,
          maxChannels = 32, minRate = 8000, maxRate = 96000\<rparr> 24000 1 =
       Inr \<lparr>numberOfChannels = 1, frames = 5, buf_sampleRate = 24000,
            channels = [[Num (1 / 32768), Num (2 / 32768), Num (3 / 32768), Num (4 / 32768),
                         Num (5 / 32768)]]\<rparr>"
  using pcm_length_check [of "[1, 0, 2, 0, 3, 0, 4, 0, 5]"
      "\<lparr>ctx_id = 0, ctx_sampleRate = 24000, ctx_state = Running,
        maxChannels = 32, minRate = 8000, maxRate = 96000\<rparr>" 24000 1]
    pcm_length_check [of "[1, 0, 2, 0, 3, 0, 4, 0, 5, 0]"
      "\<lparr>ctx_id = 0, ctx_sampleRate = 24000, ctx_state = Running,
        maxChannels = 32, minRate = 8000, maxRate = 96000\<rparr>" 24000 1]
  by (simp add: upt_rec_numeral)

text \<open>
  Counterexample to C4 as stated: 6 bytes for 2 channels are not a multiple of 4 bytes,
  and the step does not fail. It returns one frame from the first two samples and drops
  the third.
\<close>

theorem pcm_trailing_sample_counterexample:
  "(2::nat) \<ge> 1 \<and> length [1, 0, 2, 0, 3, 0 :: byte] = 6 \<and> \<not> (2 * 2 :: nat) dvd 6
   \<and> decodeAudioData [1, 0, 2, 0, 3, 0]
         \<lparr>ctx_id = 0, ctx_sampleRate = 24000, ctx_state = Running,
          maxChannels = 32, minRate = 8000, maxRate = 96000\<rparr> 24000 2 =
       Inr \<lparr>numberOfChannels = 2, frames = 1, buf_sampleRate = 24000,
            channels = [[Num (1 / 32768)], [Num (2 / 32768)]]\<rparr>"
  using decodeAudioData_ok [of "[1, 0, 2, 0, 3, 0]" 2
      "\<lparr>ctx_id = 0, ctx_sampleRate = 24000, ctx_state = Running,
        maxChannels = 32, minRate = 8000, maxRate = 96000\<rparr>" 24000]
  by (simp add: upt_0_2)


section \<open>Claims about the application\<close>

text \<open>
  Claim C5. Let the service answer with a base64 string that \<open>decode\<close> turns into the
  four bytes 00 00 FF 7F, the text be non-blank and the audio context, the one held or
  the one about to be made, support one channel at 24000 Hz. Then \<open>handleGenerate\<close> ends
  without an error; the blob URL it sets stands for a container of 48 bytes, the 44 of
  the header with data size 4 and then those four bytes; and the playback buffer has one
  channel with the two values 0 and 32767 / 32768. Both come from the one \<^verbatim>\<open>audioBytes\<close> of
  line 153: the data of the container is these bytes, and the buffer holds their two
  samples 0 and 32767.
\<close>

theorem end_to_end_two_samples:
  assumes "decode base64Audio = Inr [0, 0, 255, 127]"
    and "trim (text_in st) \<noteq> []"
    and "audioContextRef st = None \<longrightarrow>
           1 \<le> p_maxChannels p \<and> p_minRate p \<le> 24000 \<and> 24000 \<le> p_maxRate p"
    and "\<forall>c. audioContextRef st = Some c \<longrightarrow>
           1 \<le> maxChannels c \<and> minRate c \<le> 24000 \<and> 24000 \<le> maxRate c"
  shows "error (handleGenerate p t (Answered (Some base64Audio)) st) = None
    \<and> audioUrl (handleGenerate p t (Answered (Some base64Audio)) st) = Some (urlsCreated st)
    \<and> objectURLs (handleGenerate p t (Answered (Some base64Audio)) st) (urlsCreated st) =
        Some \<lparr>blob_parts = [82, 73, 70, 70, 40, 0, 0, 0, 87, 65, 86, 69, 102, 109, 116, 32,
                         16, 0, 0, 0, 1, 0, 1, 0, 192, 93, 0, 0, 128, 187, 0, 0, 2, 0, 16, 0,
                         100, 97, 116, 97, 4, 0, 0, 0] @ [0, 0, 255, 127],
              blob_type = ''audio/wav''\<rparr>
    \<and> length ([82, 73, 70, 70, 40, 0, 0, 0, 87, 65, 86, 69, 102, 109, 116, 32,
                         16, 0, 0, 0, 1, 0, 1, 0, 192, 93, 0, 0, 128, 187, 0, 0, 2, 0, 16, 0,
                         100, 97, 116, 97, 4, 0, 0, 0] @ [0, 0, 255, 127 :: byte]) = 48
    \<and> wav_field 4 40 ([82, 73, 70, 70, 40, 0, 0, 0, 87, 65, 86, 69, 102, 109, 116, 32,
                         16, 0, 0, 0, 1, 0, 1, 0, 192, 93, 0, 0, 128, 187, 0, 0, 2, 0, 16, 0,
                         100, 97, 116, 97, 4, 0, 0, 0] @ [0, 0, 255, 127]) = 4
    \<and> audioBuffer (handleGenerate p t (Answered (Some base64Audio)) st) =
        Some \<lparr>numberOfChannels = 1, frames = 2, buf_sampleRate = 24000,
              channels = [[Num 0, Num (32767 / 32768)]]\<rparr>
    \<and> spec_samples [0, 0, 255, 127] = [0, 32767]"
proof -
  have ne: "base64Audio \<noteq> []"
  proof
    assume "base64Audio = []"
    then have "decode base64Audio = Inr []"
      by (simp add: decode_def atob_def)
    with assms(1) show False by simp
  qed
  then have speech: "generateSpeech (Answered (Some base64Audio)) = Inr base64Audio"
    by (simp add: generateSpeech_def)
  have "\<exists>ctx st1. ensureContext p (startRequest st) = Inr (ctx, st1)
      \<and> 1 \<le> maxChannels ctx \<and> minRate ctx \<le> 24000 \<and> 24000 \<le> maxRate ctx"
    using assms(3,4)
    by (cases "audioContextRef st") (auto simp add: ensureContext_cases startRequest_frame)
  then obtain ctx st1 where ens: "ensureContext p (startRequest st) = Inr (ctx, st1)"
    and ok: "1 \<le> maxChannels ctx" "minRate ctx \<le> 24000" "24000 \<le> maxRate ctx"
    by blast
  note fr = ensureContext_frame [OF ens]
  note chain = chain_two_samples [OF assms(1) ok]
  show ?thesis
    unfolding handleGenerate_success [OF assms(2) ens speech chain]
    using fr by (simp add: startRequest_frame wav_field_def)
qed

text \<open>Witness for C5: the string \<^verbatim>\<open>AAD/fw==\<close>, in the state the component is mounted in
  with a text typed.\<close>

theorem end_to_end_two_samples_witness:
  "decode ''AAD/fw=='' = Inr [0, 0, 255, 127]
   \<and> trim (text_in (initial\<lparr>text_in := ''hello''\<rparr>)) \<noteq> []
   \<and> audioContextRef (initial\<lparr>text_in := ''hello''\<rparr>) = None
   \<and> (1::nat) \<le> 32 \<and> (8000::int) \<le> 24000 \<and> (24000::int) \<le> 96000
   \<and> error (handleGenerate
        \<lparr>p_maxChannels = 32, p_minRate = 8000, p_maxRate = 96000, p_autoplay = True\<rparr>
        (\<lambda>key. key) (Answered (Some ''AAD/fw=='')) (initial\<lparr>text_in := ''hello''\<rparr>)) = None
   \<and> audioUrl (handleGenerate
        \<lparr>p_maxChannels = 32, p_minRate = 8000, p_maxRate = 96000, p_autoplay = True\<rparr>
        (\<lambda>key. key) (Answered (Some ''AAD/fw=='')) (initial\<lparr>text_in := ''hello''\<rparr>)) = Some 0
   \<and> objectURLs (handleGenerate
        \<lparr>p_maxChannels = 32, p_minRate = 8000, p_maxRate = 96000, p_autoplay = True\<rparr>
        (\<lambda>key. key) (Answered (Some ''AAD/fw=='')) (initial\<lparr>text_in := ''hello''\<rparr>)) 0 =
        Some \<lparr>blob_parts = [82, 73, 70, 70, 40, 0, 0, 0, 87, 65, 86, 69, 102, 109, 116, 32,
                         16, 0, 0, 0, 1, 0, 1, 0, 192, 93, 0, 0, 128, 187, 0, 0, 2, 0, 16, 0,
                         100, 97, 116, 97, 4, 0, 0, 0, 0, 0, 255, 127],
              blob_type = ''audio/wav''\<rparr>
   \<and> audioBuffer (handleGenerate
        \<lparr>p_maxChannels = 32, p_minRate = 8000, p_maxRate = 96000, p_autoplay = True\<rparr>
        (\<lambda>key. key) (Answered (Some ''AAD/fw=='')) (initial\<lparr>text_in := ''hello''\<rparr>)) =
        Some \<lparr>numberOfChannels = 1, frames = 2, buf_sampleRate = 24000,
              channels = [[Num 0, Num (32767 / 32768)]]\<rparr>"
proof -
  have nb: "trim (text_in (initial\<lparr>text_in := ''hello''\<rparr>)) \<noteq> []"
    by (simp add: trim_def js_whitespace_def)
  have none: "audioContextRef (initial\<lparr>text_in := ''hello''\<rparr>) = None"
    "urlsCreated (initial\<lparr>text_in := ''hello''\<rparr>) = 0"
    by (simp_all add: initial_def)
  from end_to_end_two_samples [OF decode_sample nb, of
      "\<lparr>p_maxChannels = 32, p_minRate = 8000, p_maxRate = 96000, p_autoplay = True\<rparr>"
      "\<lambda>key. key"]
  show ?thesis
    using nb none decode_sample by simp
qed

text \<open>
  Claim C7, as the code has it. \<open>handleGenerate\<close> has no error type of its own and
  throws nothing to its caller: it ends normally and reports through the state. Let the
  text be non-blank, an audio context be at hand and the service have answered, and let
  a step of the chain decode, interpret, encode, convert fail with an error \<open>e\<close>. Then
  the state ends with exactly one error text, the error prefix followed by the message
  of \<open>e\<close>, with the loading flag cleared and with no playback buffer. When the step that
  fails is decode or interpret, no blob URL is made and none is set. The encoder does not
  fail; when the step that fails is the conversion, the container was encoded before it,
  and the state keeps the blob URL of that container, alive.
\<close>

theorem generation_failure_reported:
  assumes "trim (text_in st) \<noteq> []"
    and "ensureContext p (startRequest st) = Inr (ctx, st1)"
    and "generateSpeech outcome = Inr b"
    and "spec_chain ctx b = Inl e"
  shows "error (handleGenerate p t outcome st) = Some (t ''errorPrefix'' @ '' '' @ message e)
    \<and> isLoading (handleGenerate p t outcome st) = False
    \<and> audioBuffer (handleGenerate p t outcome st) = None
    \<and> (decode b = Inl e
         \<or> (\<exists>audioBytes. decode b = Inr audioBytes \<and> new_Int16Array audioBytes = Inl e) \<longrightarrow>
           audioUrl (handleGenerate p t outcome st) = None
           \<and> objectURLs (handleGenerate p t outcome st) = objectURLs (startRequest st)
           \<and> urlsCreated (handleGenerate p t outcome st) = urlsCreated st)
    \<and> (\<forall>audioBytes pcm. decode b = Inr audioBytes \<and> new_Int16Array audioBytes = Inr pcm \<longrightarrow>
           decodeAudioData audioBytes ctx 24000 1 = Inl e
           \<and> audioUrl (handleGenerate p t outcome st) = Some (urlsCreated st)
           \<and> objectURLs (handleGenerate p t outcome st) (urlsCreated st) =
               Some \<lparr>blob_parts = spec_wav_header 1 24000 (2 * int (length pcm))
                                   @ concat (map sample_bytes pcm),
                     blob_type = ''audio/wav''\<rparr>)"
proof -
  let ?H = "handleGenerate p t outcome st"
  note fr = ensureContext_frame [OF assms(2)]
  note tb = tryBlock_chain [OF assms(2,3) startRequest_frame(1)]
  have inst: "instanceof_Error e"
    using assms(4) by (rule chain_error_is_Error)
  have or: "generateSpeech outcome = Inl e
         \<or> (\<exists>b. generateSpeech outcome = Inr b \<and> spec_chain ctx b = Inl e)"
    using assms(3,4) by blast
  from handleGenerate_failure [OF assms(1,2) or, of t] inst
  have rep: "error ?H = Some (t ''errorPrefix'' @ '' '' @ message e)"
    "isLoading ?H = False" "audioBuffer ?H = None"
    by simp_all
  have early: "audioUrl ?H = None \<and> objectURLs ?H = objectURLs (startRequest st)
      \<and> urlsCreated ?H = urlsCreated st"
    if "decode b = Inl e
         \<or> (\<exists>audioBytes. decode b = Inr audioBytes \<and> new_Int16Array audioBytes = Inl e)"
  proof -
    from that have "andThen (decode b) new_Int16Array = Inl e"
      by auto
    then have "tryBlock p outcome (startRequest st) = (st1, Some e)"
      unfolding tb by (simp add: assms(4))
    with assms(1) fr show ?thesis
      by (simp add: handleGenerate_def startRequest_frame)
  qed
  have late: "decodeAudioData audioBytes ctx 24000 1 = Inl e
      \<and> audioUrl ?H = Some (urlsCreated st)
      \<and> objectURLs ?H (urlsCreated st) =
          Some \<lparr>blob_parts = spec_wav_header 1 24000 (2 * int (length pcm))
                              @ concat (map sample_bytes pcm),
                blob_type = ''audio/wav''\<rparr>"
    if d: "decode b = Inr audioBytes \<and> new_Int16Array audioBytes = Inr pcm" for audioBytes pcm
  proof -
    from d have view: "andThen (decode b) new_Int16Array = Inr pcm"
      by simp
    from d assms(4) have conv: "decodeAudioData audioBytes ctx 24000 1 = Inl e"
      by (auto simp add: spec_chain_def createWavBlob_bytes andThen_def split: sum.splits)
    have "tryBlock p outcome (startRequest st) =
        (st1\<lparr>objectURLs := (objectURLs st1)(urlsCreated st1 \<mapsto>
                 \<lparr>blob_parts = spec_wav_header 1 24000 (2 * int (length pcm))
                                 @ concat (map sample_bytes pcm),
                   blob_type = ''audio/wav''\<rparr>),
             urlsCreated := urlsCreated st1 + 1,
             audioUrl := Some (urlsCreated st1)\<rparr>, Some e)"
      unfolding tb by (simp add: assms(4) view createWavBlob_bytes)
    with assms(1) fr conv show ?thesis
      by (simp add: handleGenerate_def startRequest_frame)
  qed
  from rep early late show ?thesis by blast
qed

text \<open>
  Witness for C7: the service answers with the string \<^verbatim>\<open>A\<close>, which is not base64, and
  decode fails; and it answers with a single space, which decodes to no byte, and the
  conversion fails.
\<close>

theorem generation_failure_reported_witness:
  "trim (text_in (initial\<lparr>text_in := ''hello''\<rparr>)) \<noteq> []
   \<and> ensureContext \<lparr>p_maxChannels = 32, p_minRate = 8000, p_maxRate = 96000, p_autoplay = True\<rparr>
         (startRequest (initial\<lparr>text_in := ''hello''\<rparr>)) =
       Inr (\<lparr>ctx_id = 0, ctx_sampleRate = 24000, ctx_state = Running, maxChannels = 32, minRate = 8000, maxRate = 96000\<rparr>,
            (startRequest (initial\<lparr>text_in := ''hello''\<rparr>))
              \<lparr>contextsCreated := 1,
               audioContextRef := Some \<lparr>ctx_id = 0, ctx_sampleRate = 24000, ctx_state = Running, maxChannels = 32, minRate = 8000, maxRate = 96000\<rparr>\<rparr>)
   \<and> generateSpeech (Answered (Some ''A'')) = Inr ''A''
   \<and> spec_chain \<lparr>ctx_id = 0, ctx_sampleRate = 24000, ctx_state = Running, maxChannels = 32, minRate = 8000, maxRate = 96000\<rparr> ''A''
       = Inl (DOMException ''InvalidCharacterError'' ''The string to be decoded is not correctly encoded.'')
   \<and> decode ''A'' = Inl (DOMException ''InvalidCharacterError'' ''The string to be decoded is not correctly encoded.'')
   \<and> error (handleGenerate
        \<lparr>p_maxChannels = 32, p_minRate = 8000, p_maxRate = 96000, p_autoplay = True\<rparr>
        (\<lambda>key. key) (Answered (Some ''A'')) (initial\<lparr>text_in := ''hello''\<rparr>))
       = Some (''errorPrefix'' @ '' '' @ message (DOMException ''InvalidCharacterError'' ''The string to be decoded is not correctly encoded.''))
   \<and> audioBuffer (handleGenerate
        \<lparr>p_maxChannels = 32, p_minRate = 8000, p_maxRate = 96000, p_autoplay = True\<rparr>
        (\<lambda>key. key) (Answered (Some ''A'')) (initial\<lparr>text_in := ''hello''\<rparr>)) = None
   \<and> audioUrl (handleGenerate
        \<lparr>p_maxChannels = 32, p_minRate = 8000, p_maxRate = 96000, p_autoplay = True\<rparr>
        (\<lambda>key. key) (Answered (Some ''A'')) (initial\<lparr>text_in := ''hello''\<rparr>)) = None
   \<and> generateSpeech (Answered (Some '' '')) = Inr '' ''
   \<and> spec_chain \<lparr>ctx_id = 0, ctx_sampleRate = 24000, ctx_state = Running, maxChannels = 32, minRate = 8000, maxRate = 96000\<rparr> '' ''
       = Inl NotSupportedError
   \<and> decode '' '' = Inr []
   \<and> new_Int16Array [] = Inr []
   \<and> error (handleGenerate
        \<lparr>p_maxChannels = 32, p_minRate = 8000, p_maxRate = 96000, p_autoplay = True\<rparr>
        (\<lambda>key. key) (Answered (Some '' '')) (initial\<lparr>text_in := ''hello''\<rparr>))
       = Some (''errorPrefix'' @ '' '' @ message NotSupportedError)
   \<and> audioBuffer (handleGenerate
        \<lparr>p_maxChannels = 32, p_minRate = 8000, p_maxRate = 96000, p_autoplay = True\<rparr>
        (\<lambda>key. key) (Answered (Some '' '')) (initial\<lparr>text_in := ''hello''\<rparr>)) = None
   \<and> audioUrl (handleGenerate
        \<lparr>p_maxChannels = 32, p_minRate = 8000, p_maxRate = 96000, p_autoplay = True\<rparr>
        (\<lambda>key. key) (Answered (Some '' '')) (initial\<lparr>text_in := ''hello''\<rparr>)) = Some 0"
proof -
  let ?p = "\<lparr>p_maxChannels = 32, p_minRate = 8000, p_maxRate = 96000, p_autoplay = True\<rparr>"
  let ?ctx = "\<lparr>ctx_id = 0, ctx_sampleRate = 24000, ctx_state = Running, maxChannels = 32, minRate = 8000, maxRate = 96000\<rparr>"
  let ?s = "(initial\<lparr>text_in := ''hello''\<rparr>)"
  let ?inv = "(DOMException ''InvalidCharacterError'' ''The string to be decoded is not correctly encoded.'')"
  let ?HA = "handleGenerate ?p (\<lambda>key. key) (Answered (Some ''A'')) ?s"
  let ?HS = "handleGenerate ?p (\<lambda>key. key) (Answered (Some '' '')) ?s"
  have nb: "trim (text_in ?s) \<noteq> []"
    by (simp add: trim_def js_whitespace_def)
  have ens: "ensureContext ?p (startRequest ?s) =
      Inr (?ctx, (startRequest ?s)\<lparr>contextsCreated := 1, audioContextRef := Some ?ctx\<rparr>)"
    by (simp add: ensureContext_cases startRequest_frame initial_def)
  have sp1: "generateSpeech (Answered (Some ''A'')) = Inr ''A''"
    and sp2: "generateSpeech (Answered (Some '' '')) = Inr '' ''"
    by (simp_all add: generateSpeech_def)
  have "atob ''A'' = Inl ?inv"
    by code_simp
  then have d1: "decode ''A'' = Inl ?inv"
    by (simp add: decode_def)
  then have ch1: "spec_chain ?ctx ''A'' = Inl ?inv"
    by (simp add: spec_chain_def)
  have "atob '' '' = Inr []"
    by code_simp
  then have d2: "decode '' '' = Inr []"
    by (simp add: decode_def)
  have v2: "new_Int16Array [] = Inr []"
    by (simp add: new_Int16Array_def)
  have "decodeAudioData [] ?ctx 24000 1 = Inl NotSupportedError"
    by (simp add: decodeAudioData_def new_Int16Array_def createBuffer_def)
  then have ch2: "spec_chain ?ctx '' '' = Inl NotSupportedError"
    by (simp add: spec_chain_def d2 v2 createWavBlob_bytes)
  have zero: "urlsCreated ?s = 0"
    by (simp add: initial_def)
  note a = generation_failure_reported [OF nb ens sp1 ch1, of "\<lambda>key. key"]
  note b = generation_failure_reported [OF nb ens sp2 ch2, of "\<lambda>key. key"]
  from a d1 have ra: "error ?HA = Some (''errorPrefix'' @ '' '' @ message ?inv)"
    "audioBuffer ?HA = None" "audioUrl ?HA = None"
    by blast+
  from b d2 v2 have rb: "error ?HS = Some (''errorPrefix'' @ '' '' @ message NotSupportedError)"
    "audioBuffer ?HS = None" "audioUrl ?HS = Some (urlsCreated ?s)"
    by blast+
  from nb ens sp1 sp2 d1 ch1 d2 v2 ch2 ra rb zero show ?thesis
    by simp
qed

text \<open>
  Counterexample to C7 as stated, never partial output for the request: the service
  answers with a single space. \<open>decode\<close> gives no byte, the view has no sample, the
  encoder gives the container of 44 bytes, and the conversion, the last step of the
  chain, fails, \<^verbatim>\<open>createBuffer\<close> refusing a buffer of length 0. The handler ends normally
  with an error text in the state and no buffer, and beside the error the state holds the
  blob URL of the container, alive: an output of the request that failed.
\<close>

theorem generation_partial_output_counterexample:
  "generateSpeech (Answered (Some '' '')) = Inr '' ''
   \<and> decode '' '' = Inr []
   \<and> new_Int16Array [] = Inr []
   \<and> createWavBlob [] 24000 =
       Inr \<lparr>blob_parts = [82, 73, 70, 70, 36, 0, 0, 0, 87, 65, 86, 69, 102, 109, 116, 32,
          16, 0, 0, 0, 1, 0, 1, 0, 192, 93, 0, 0, 128, 187, 0, 0, 2, 0, 16, 0,
          100, 97, 116, 97, 0, 0, 0, 0],
            blob_type = ''audio/wav''\<rparr>
   \<and> decodeAudioData [] \<lparr>ctx_id = 0, ctx_sampleRate = 24000, ctx_state = Running, maxChannels = 32, minRate = 8000, maxRate = 96000\<rparr> 24000 1
       = Inl NotSupportedError
   \<and> error (handleGenerate
        \<lparr>p_maxChannels = 32, p_minRate = 8000, p_maxRate = 96000, p_autoplay = True\<rparr>
        (\<lambda>key. key) (Answered (Some '' '')) (initial\<lparr>text_in := ''hello''\<rparr>))
       = Some (''errorPrefix'' @ '' '' @ message NotSupportedError)
   \<and> audioBuffer (handleGenerate
        \<lparr>p_maxChannels = 32, p_minRate = 8000, p_maxRate = 96000, p_autoplay = True\<rparr>
        (\<lambda>key. key) (Answered (Some '' '')) (initial\<lparr>text_in := ''hello''\<rparr>)) = None
   \<and> audioUrl (handleGenerate
        \<lparr>p_maxChannels = 32, p_minRate = 8000, p_maxRate = 96000, p_autoplay = True\<rparr>
        (\<lambda>key. key) (Answered (Some '' '')) (initial\<lparr>text_in := ''hello''\<rparr>)) = Some 0
   \<and> objectURLs (handleGenerate
        \<lparr>p_maxChannels = 32, p_minRate = 8000, p_maxRate = 96000, p_autoplay = True\<rparr>
        (\<lambda>key. key) (Answered (Some '' '')) (initial\<lparr>text_in := ''hello''\<rparr>)) 0 =
       Some \<lparr>blob_parts = [82, 73, 70, 70, 36, 0, 0, 0, 87, 65, 86, 69, 102, 109, 116, 32,
          16, 0, 0, 0, 1, 0, 1, 0, 192, 93, 0, 0, 128, 187, 0, 0, 2, 0, 16, 0,
          100, 97, 116, 97, 0, 0, 0, 0],
             blob_type = ''audio/wav''\<rparr>"
proof -
  let ?p = "\<lparr>p_maxChannels = 32, p_minRate = 8000, p_maxRate = 96000, p_autoplay = True\<rparr>"
  let ?ctx = "\<lparr>ctx_id = 0, ctx_sampleRate = 24000, ctx_state = Running, maxChannels = 32, minRate = 8000, maxRate = 96000\<rparr>"
  let ?s = "(initial\<lparr>text_in := ''hello''\<rparr>)"
  let ?wav = "\<lparr>blob_parts = [82, 73, 70, 70, 36, 0, 0, 0, 87, 65, 86, 69, 102, 109, 116, 32,
          16, 0, 0, 0, 1, 0, 1, 0, 192, 93, 0, 0, 128, 187, 0, 0, 2, 0, 16, 0,
          100, 97, 116, 97, 0, 0, 0, 0],
            blob_type = ''audio/wav''\<rparr>"
  let ?HS = "handleGenerate ?p (\<lambda>key. key) (Answered (Some '' '')) ?s"
  have "atob '' '' = Inr []"
    by code_simp
  then have d: "decode '' '' = Inr []"
    by (simp add: decode_def)
  have v: "new_Int16Array [] = Inr []"
    by (simp add: new_Int16Array_def)
  have w: "createWavBlob [] 24000 = Inr ?wav"
    by (simp add: createWavBlob_bytes spec_wav_header_def ascii_def u32le_bytes u16le_bytes)
  have c: "decodeAudioData [] ?ctx 24000 1 = Inl NotSupportedError"
    by (simp add: decodeAudioData_def new_Int16Array_def createBuffer_def)
  have sp: "generateSpeech (Answered (Some '' '')) = Inr '' ''"
    by (simp add: generateSpeech_def)
  have nb: "trim (text_in ?s) \<noteq> []"
    by (simp add: trim_def js_whitespace_def)
  have ens: "ensureContext ?p (startRequest ?s) =
      Inr (?ctx, (startRequest ?s)\<lparr>contextsCreated := 1, audioContextRef := Some ?ctx\<rparr>)"
    by (simp add: ensureContext_cases startRequest_frame initial_def)
  have "tryBlock ?p (Answered (Some '' '')) (startRequest ?s) =
      ((startRequest ?s)\<lparr>contextsCreated := 1, audioContextRef := Some ?ctx,
          objectURLs := [0 \<mapsto> ?wav], urlsCreated := 1, audioUrl := Some 0\<rparr>,
       Some NotSupportedError)"
    by (simp only: tryBlock_def ens sp d v w c sum.case prod.case createObjectURL_def
        setAudioUrl_def)
       (simp add: startRequest_eq initial_def)
  with nb have "?HS =
      (startRequest ?s)\<lparr>contextsCreated := 1, audioContextRef := Some ?ctx,
          objectURLs := [0 \<mapsto> ?wav], urlsCreated := 1, audioUrl := Some 0,
          error := Some (''errorPrefix'' @ '' '' @ message NotSupportedError),
          isLoading := False\<rparr>"
    by (simp add: handleGenerate_def NotSupportedError_def)
  then have "error ?HS = Some (''errorPrefix'' @ '' '' @ message NotSupportedError)"
    "audioBuffer ?HS = None" "audioUrl ?HS = Some 0" "objectURLs ?HS 0 = Some ?wav"
    by (simp_all add: startRequest_eq)
  with sp d v w c show ?thesis
    by simp
qed

text \<open>
  Claim C8. In every state the component can reach, at most one audio context has been
  made; none is held exactly when none has been made, and the one held is the first,
  made at 24000 Hz. While one is held every further event, generation or playback, keeps
  that instance and makes no other; playing twice makes none. Before any generation
  request there is none, and the first request with a non-blank text makes it, on a
  platform that supports 24000 Hz.
\<close>

theorem single_audio_context:
  "contextsCreated (run p t evs) \<le> 1
   \<and> (audioContextRef (run p t evs) = None \<longrightarrow> contextsCreated (run p t evs) = 0)
   \<and> (\<forall>c. audioContextRef (run p t evs) = Some c \<longrightarrow>
          contextsCreated (run p t evs) = 1 \<and> ctx_id c = 0 \<and> ctx_sampleRate c = 24000)
   \<and> (\<forall>c ev. audioContextRef (run p t evs) = Some c \<longrightarrow>
          contextsCreated (step p t (run p t evs) ev) = contextsCreated (run p t evs)
          \<and> (\<exists>c'. audioContextRef (step p t (run p t evs) ev) = Some c'
                 \<and> ctx_id c' = ctx_id c \<and> ctx_sampleRate c' = 24000))
   \<and> (\<forall>outcome. audioContextRef (run p t evs) = None \<and> trim (text_in (run p t evs)) \<noteq> []
          \<and> p_minRate p \<le> 24000 \<and> 24000 \<le> p_maxRate p \<longrightarrow>
          contextsCreated (handleGenerate p t outcome (run p t evs)) = 1
          \<and> (\<exists>c. audioContextRef (handleGenerate p t outcome (run p t evs)) = Some c
                 \<and> ctx_id c = 0 \<and> ctx_sampleRate c = 24000))
   \<and> ((\<forall>outcome. Generate outcome \<notin> set evs) \<longrightarrow> audioContextRef (run p t evs) = None)
   \<and> contextsCreated (handlePlay (handlePlay (run p t evs))) = contextsCreated (run p t evs)"
proof -
  let ?st = "run p t evs"
  note inv = run_context [of p t evs]
  have a: "contextsCreated ?st \<le> 1"
    and b: "audioContextRef ?st = None \<longrightarrow> contextsCreated ?st = 0"
    and c: "\<forall>c. audioContextRef ?st = Some c \<longrightarrow>
          contextsCreated ?st = 1 \<and> ctx_id c = 0 \<and> ctx_sampleRate c = 24000"
    using inv by auto
  have d: "\<forall>c ev. audioContextRef ?st = Some c \<longrightarrow>
          contextsCreated (step p t ?st ev) = contextsCreated ?st
          \<and> (\<exists>c'. audioContextRef (step p t ?st ev) = Some c'
                 \<and> ctx_id c' = ctx_id c \<and> ctx_sampleRate c' = 24000)"
  proof (intro allI impI)
    fix c ev assume ref: "audioContextRef ?st = Some c"
    with c have "ctx_sampleRate c = 24000" by simp
    with step_keeps_context [OF ref, of p t ev]
    show "contextsCreated (step p t ?st ev) = contextsCreated ?st
          \<and> (\<exists>c'. audioContextRef (step p t ?st ev) = Some c'
                 \<and> ctx_id c' = ctx_id c \<and> ctx_sampleRate c' = 24000)"
      by auto
  qed
  have e: "\<forall>outcome. audioContextRef ?st = None \<and> trim (text_in ?st) \<noteq> []
          \<and> p_minRate p \<le> 24000 \<and> 24000 \<le> p_maxRate p \<longrightarrow>
          contextsCreated (handleGenerate p t outcome ?st) = 1
          \<and> (\<exists>c. audioContextRef (handleGenerate p t outcome ?st) = Some c
                 \<and> ctx_id c = 0 \<and> ctx_sampleRate c = 24000)"
    using b by (auto simp add: handleGenerate_context ensureContext_cases startRequest_frame)
  have f: "(\<forall>outcome. Generate outcome \<notin> set evs) \<longrightarrow> audioContextRef ?st = None"
    using run_without_generate [of evs p t] by simp
  have g: "contextsCreated (handlePlay (handlePlay ?st)) = contextsCreated ?st"
    by (simp add: handlePlay_frame)
  from a b c d e f g show ?thesis by blast
qed

text \<open>
  Witness for C8: a text is typed and no context exists; the first request makes the
  context; pressing play, once and twice, leaves the count at one.
\<close>

theorem single_audio_context_witness:
  "audioContextRef (run \<lparr>p_maxChannels = 32, p_minRate = 8000, p_maxRate = 96000, p_autoplay = False\<rparr>
      (\<lambda>key. key) [SetText ''hello'']) = None
   \<and> trim (text_in (run \<lparr>p_maxChannels = 32, p_minRate = 8000, p_maxRate = 96000, p_autoplay = False\<rparr>
      (\<lambda>key. key) [SetText ''hello''])) \<noteq> []
   \<and> (8000::int) \<le> 24000 \<and> (24000::int) \<le> 96000
   \<and> contextsCreated (run \<lparr>p_maxChannels = 32, p_minRate = 8000, p_maxRate = 96000, p_autoplay = False\<rparr>
      (\<lambda>key. key) [SetText ''hello'']) = 0
   \<and> contextsCreated (handleGenerate
        \<lparr>p_maxChannels = 32, p_minRate = 8000, p_maxRate = 96000, p_autoplay = False\<rparr>
        (\<lambda>key. key) (Answered (Some ''AAD/fw==''))
        (run \<lparr>p_maxChannels = 32, p_minRate = 8000, p_maxRate = 96000, p_autoplay = False\<rparr>
          (\<lambda>key. key) [SetText ''hello''])) = 1
   \<and> audioContextRef (run \<lparr>p_maxChannels = 32, p_minRate = 8000, p_maxRate = 96000, p_autoplay = False\<rparr>
      (\<lambda>key. key) [SetText ''hello'', Generate (Answered (Some ''AAD/fw==''))])
       = Some \<lparr>ctx_id = 0, ctx_sampleRate = 24000, ctx_state = Suspended,
                maxChannels = 32, minRate = 8000, maxRate = 96000\<rparr>
   \<and> contextsCreated (run \<lparr>p_maxChannels = 32, p_minRate = 8000, p_maxRate = 96000, p_autoplay = False\<rparr>
      (\<lambda>key. key) [SetText ''hello'', Generate (Answered (Some ''AAD/fw==''))]) = 1
   \<and> contextsCreated (step \<lparr>p_maxChannels = 32, p_minRate = 8000, p_maxRate = 96000, p_autoplay = False\<rparr>
      (\<lambda>key. key)
      (run \<lparr>p_maxChannels = 32, p_minRate = 8000, p_maxRate = 96000, p_autoplay = False\<rparr>
        (\<lambda>key. key) [SetText ''hello'', Generate (Answered (Some ''AAD/fw==''))]) Play) = 1
   \<and> contextsCreated (handlePlay (handlePlay
      (run \<lparr>p_maxChannels = 32, p_minRate = 8000, p_maxRate = 96000, p_autoplay = False\<rparr>
        (\<lambda>key. key) [SetText ''hello'', Generate (Answered (Some ''AAD/fw==''))]))) = 1
   \<and> length (started (handlePlay (handlePlay
      (run \<lparr>p_maxChannels = 32, p_minRate = 8000, p_maxRate = 96000, p_autoplay = False\<rparr>
        (\<lambda>key. key) [SetText ''hello'', Generate (Answered (Some ''AAD/fw==''))])))) = 2"
proof -
  let ?p = "\<lparr>p_maxChannels = 32, p_minRate = 8000, p_maxRate = 96000, p_autoplay = False\<rparr>"
  let ?t = "\<lambda>key :: string. key"
  let ?e1 = "[SetText ''hello'']"
  let ?e2 = "[SetText ''hello'', Generate (Answered (Some ''AAD/fw==''))]"
  have none: "audioContextRef (run ?p ?t ?e1) = None"
    and nb: "trim (text_in (run ?p ?t ?e1)) \<noteq> []"
    by (simp_all add: run_def initial_def trim_def js_whitespace_def)
  have ref: "audioContextRef (run ?p ?t ?e2)
       = Some \<lparr>ctx_id = 0, ctx_sampleRate = 24000, ctx_state = Suspended,
                maxChannels = 32, minRate = 8000, maxRate = 96000\<rparr>"
    by (simp add: sample_generated)
  have played: "length (started (handlePlay (handlePlay (run ?p ?t ?e2)))) = 2"
    by (simp add: sample_generated handlePlay_def)
  have rates: "p_minRate ?p \<le> 24000" "24000 \<le> p_maxRate ?p"
    by simp_all
  note first = single_audio_context [of ?p ?t ?e1]
  note later = single_audio_context [of ?p ?t ?e2]
  from first none have zero: "contextsCreated (run ?p ?t ?e1) = 0"
    by blast
  from first none nb rates
  have made: "contextsCreated (handleGenerate ?p ?t (Answered (Some ''AAD/fw=='')) (run ?p ?t ?e1)) = 1"
    by blast
  from later ref have one: "contextsCreated (run ?p ?t ?e2) = 1"
    by blast
  from later ref have "contextsCreated (step ?p ?t (run ?p ?t ?e2) Play)
      = contextsCreated (run ?p ?t ?e2)"
    by blast
  with one have again: "contextsCreated (step ?p ?t (run ?p ?t ?e2) Play) = 1"
    by simp
  from later one have twice: "contextsCreated (handlePlay (handlePlay (run ?p ?t ?e2))) = 1"
    by simp
  from none nb zero made ref one again twice played show ?thesis
    by simp
qed

text \<open>
  Claim C9. In every state the component can reach, the blob URLs that are alive are
  the one the state holds, if it holds one: never two. When a request starts with a
  non-blank text while a URL is held, that URL is revoked by the first lines of the
  handler, before the \<^verbatim>\<open>try\<close> block can make another: no URL is alive when the block
  starts. After the handler the old URL is not alive, and the state holds a URL other
  than it or none.
\<close>

theorem superseded_handle_released:
  "dom (objectURLs (run p t evs)) = set_option (audioUrl (run p t evs))
   \<and> card (dom (objectURLs (run p t evs))) \<le> 1
   \<and> (\<forall>u outcome. audioUrl (run p t evs) = Some u \<and> trim (text_in (run p t evs)) \<noteq> [] \<longrightarrow>
          objectURLs (startRequest (run p t evs)) = Map.empty
          \<and> objectURLs (handleGenerate p t outcome (run p t evs)) u = None
          \<and> audioUrl (handleGenerate p t outcome (run p t evs)) \<noteq> Some u
          \<and> dom (objectURLs (handleGenerate p t outcome (run p t evs)))
              = set_option (audioUrl (handleGenerate p t outcome (run p t evs))))"
proof -
  let ?st = "run p t evs"
  note inv = run_urls [of p t evs]
  then have dom: "dom (objectURLs ?st) = set_option (audioUrl ?st)"
    and fresh: "\<forall>u \<in> dom (objectURLs ?st). u < urlsCreated ?st"
    by simp_all
  have card: "card (dom (objectURLs ?st)) \<le> 1"
    unfolding dom by (cases "audioUrl ?st") simp_all
  have sup: "objectURLs (startRequest ?st) = Map.empty
          \<and> objectURLs (handleGenerate p t outcome ?st) u = None
          \<and> audioUrl (handleGenerate p t outcome ?st) \<noteq> Some u
          \<and> dom (objectURLs (handleGenerate p t outcome ?st))
              = set_option (audioUrl (handleGenerate p t outcome ?st))"
    if held: "audioUrl ?st = Some u" and nb: "trim (text_in ?st) \<noteq> []" for u outcome
  proof -
    from held dom have d: "dom (objectURLs ?st) = {u}" by simp
    then have "u < urlsCreated ?st" using fresh by simp
    moreover note after = handleGenerate_urls [OF dom fresh, of p t outcome]
    ultimately have gone: "u \<notin> dom (objectURLs (handleGenerate p t outcome ?st))"
      using after(3) [OF nb] by auto
    then have "objectURLs (handleGenerate p t outcome ?st) u = None"
      by (simp add: domIff)
    moreover from gone after(1) have "audioUrl (handleGenerate p t outcome ?st) \<noteq> Some u"
      by auto
    moreover have "objectURLs (startRequest ?st) = Map.empty"
      using held d by (simp add: startRequest_eq revoke_only_url)
    ultimately show ?thesis
      using after(1) by simp
  qed
  from dom card sup show ?thesis by blast
qed

text \<open>Witness for C9: a second request after a first that succeeded.\<close>

theorem superseded_handle_released_witness:
  "audioUrl (run \<lparr>p_maxChannels = 32, p_minRate = 8000, p_maxRate = 96000, p_autoplay = False\<rparr>
      (\<lambda>key. key) [SetText ''hello'', Generate (Answered (Some ''AAD/fw==''))]) = Some 0
   \<and> trim (text_in (run \<lparr>p_maxChannels = 32, p_minRate = 8000, p_maxRate = 96000, p_autoplay = False\<rparr>
      (\<lambda>key. key) [SetText ''hello'', Generate (Answered (Some ''AAD/fw==''))])) \<noteq> []
   \<and> dom (objectURLs (run \<lparr>p_maxChannels = 32, p_minRate = 8000, p_maxRate = 96000, p_autoplay = False\<rparr>
      (\<lambda>key. key) [SetText ''hello'', Generate (Answered (Some ''AAD/fw==''))])) = {0}
   \<and> objectURLs (startRequest (run \<lparr>p_maxChannels = 32, p_minRate = 8000, p_maxRate = 96000, p_autoplay = False\<rparr>
      (\<lambda>key. key) [SetText ''hello'', Generate (Answered (Some ''AAD/fw==''))])) = Map.empty
   \<and> objectURLs (handleGenerate
        \<lparr>p_maxChannels = 32, p_minRate = 8000, p_maxRate = 96000, p_autoplay = False\<rparr>
        (\<lambda>key. key) (Answered (Some ''AAD/fw==''))
        (run \<lparr>p_maxChannels = 32, p_minRate = 8000, p_maxRate = 96000, p_autoplay = False\<rparr>
          (\<lambda>key. key) [SetText ''hello'', Generate (Answered (Some ''AAD/fw==''))])) 0 = None
   \<and> audioUrl (handleGenerate
        \<lparr>p_maxChannels = 32, p_minRate = 8000, p_maxRate = 96000, p_autoplay = False\<rparr>
        (\<lambda>key. key) (Answered (Some ''AAD/fw==''))
        (run \<lparr>p_maxChannels = 32, p_minRate = 8000, p_maxRate = 96000, p_autoplay = False\<rparr>
          (\<lambda>key. key) [SetText ''hello'', Generate (Answered (Some ''AAD/fw==''))])) \<noteq> Some 0"
proof -
  let ?p = "\<lparr>p_maxChannels = 32, p_minRate = 8000, p_maxRate = 96000, p_autoplay = False\<rparr>"
  let ?evs = "[SetText ''hello'', Generate (Answered (Some ''AAD/fw==''))]"
  have held: "audioUrl (run ?p (\<lambda>key. key) ?evs) = Some 0"
    and nb: "trim (text_in (run ?p (\<lambda>key. key) ?evs)) \<noteq> []"
    by (simp_all add: sample_generated trim_def js_whitespace_def)
  from superseded_handle_released [of ?p "\<lambda>key. key" ?evs] held nb
  show ?thesis
    by auto
qed

text \<open>
  Claim C10. \<open>handlePlay\<close> returns a state and throws nothing. Without a buffer or
  without an audio context it returns the state unchanged, so nothing is started. If it
  changes the state, or starts a playback, both were present; and with both present it
  starts the playback of the buffer, on the context it holds, resumed if it was
  suspended.
\<close>

theorem play_needs_buffer_and_context:
  "(audioBuffer st = None \<or> audioContextRef st = None \<longrightarrow> handlePlay st = st)
   \<and> (handlePlay st \<noteq> st \<longrightarrow> audioBuffer st \<noteq> None \<and> audioContextRef st \<noteq> None)
   \<and> (started (handlePlay st) \<noteq> started st \<longrightarrow>
         audioBuffer st \<noteq> None \<and> audioContextRef st \<noteq> None)
   \<and> (\<forall>buffer c. audioBuffer st = Some buffer \<and> audioContextRef st = Some c \<longrightarrow>
         started (handlePlay st) = started st @ [buffer]
         \<and> audioContextRef (handlePlay st) = Some (c\<lparr>ctx_state := Running\<rparr>))"
proof -
  have "c\<lparr>ctx_state := Running\<rparr> = c" if "ctx_state c \<noteq> Suspended" for c :: AudioContext
    using that by (cases "ctx_state c") simp_all
  then show ?thesis
    by (auto simp add: handlePlay_def Let_def split: option.splits)
qed

text \<open>
  Witness for C10: in the first state there is no buffer and the state stays as it is;
  after a successful request there are both, and the buffer is played.
\<close>

theorem play_needs_buffer_and_context_witness:
  "audioBuffer initial = None \<and> handlePlay initial = initial
   \<and> audioBuffer (run \<lparr>p_maxChannels = 32, p_minRate = 8000, p_maxRate = 96000, p_autoplay = False\<rparr>
      (\<lambda>key. key) [SetText ''hello'', Generate (Answered (Some ''AAD/fw==''))])
       = Some \<lparr>numberOfChannels = 1, frames = 2, buf_sampleRate = 24000,
                channels = [[Num 0, Num (32767 / 32768)]]\<rparr>
   \<and> audioContextRef (run \<lparr>p_maxChannels = 32, p_minRate = 8000, p_maxRate = 96000, p_autoplay = False\<rparr>
      (\<lambda>key. key) [SetText ''hello'', Generate (Answered (Some ''AAD/fw==''))])
       = Some \<lparr>ctx_id = 0, ctx_sampleRate = 24000, ctx_state = Suspended,
                maxChannels = 32, minRate = 8000, maxRate = 96000\<rparr>
   \<and> started (handlePlay
        (run \<lparr>p_maxChannels = 32, p_minRate = 8000, p_maxRate = 96000, p_autoplay = False\<rparr>
          (\<lambda>key. key) [SetText ''hello'', Generate (Answered (Some ''AAD/fw==''))]))
       = [\<lparr>numberOfChannels = 1, frames = 2, buf_sampleRate = 24000,
           channels = [[Num 0, Num (32767 / 32768)]]\<rparr>]
   \<and> audioContextRef (handlePlay
        (run \<lparr>p_maxChannels = 32, p_minRate = 8000, p_maxRate = 96000, p_autoplay = False\<rparr>
          (\<lambda>key. key) [SetText ''hello'', Generate (Answered (Some ''AAD/fw==''))]))
       = Some \<lparr>ctx_id = 0, ctx_sampleRate = 24000, ctx_state = Running,
                maxChannels = 32, minRate = 8000, maxRate = 96000\<rparr>"
proof -
  let ?p = "\<lparr>p_maxChannels = 32, p_minRate = 8000, p_maxRate = 96000, p_autoplay = False\<rparr>"
  let ?evs = "[SetText ''hello'', Generate (Answered (Some ''AAD/fw==''))]"
  have none: "audioBuffer initial = None"
    by (simp add: initial_def)
  from play_needs_buffer_and_context [of initial]
    play_needs_buffer_and_context [of "run ?p (\<lambda>key. key) ?evs"]
  show ?thesis
    using none by (simp add: sample_generated)
qed

end
